theory Spec2Isabelle
  imports Complex_Main "HOL-Library.Sublist" "HOL-Library.Char_ord" "HOL-Library.List_Lexorder"
begin

section \<open>Python values and errors\<close>

text \<open>
  The exceptions that the modelled code of \<^verbatim>\<open>electra.py\<close> can raise. \<open>SystemExit\<close> is
  what the builtin \<^verbatim>\<open>exit()\<close> raises; in Python it derives from \<^verbatim>\<open>BaseException\<close> only, so
  an \<^verbatim>\<open>except Exception\<close> clause does not catch it. Every other constructor is a subclass
  of \<^verbatim>\<open>Exception\<close>.
\<close>

datatype py_error =
    KeyError string
  | UnboundLocalError string
  | ValueError string
  | TypeError string
  | AttributeError string
  | RuntimeError string
  | OSError string
  | SystemExit

fun is_Exception :: "py_error \<Rightarrow> bool" where
  "is_Exception SystemExit = False"
| "is_Exception _ = True"

text \<open>What \<^verbatim>\<open>print\<close> has written: a string literal, or an exception object.\<close>

datatype printed = Text string | Exc py_error

section \<open>Configuration and rows\<close>

text \<open>
  The run configuration: one field for every key of \<^verbatim>\<open>parameters_dict\<close>. Python floats
  are only passed through by the modelled code, and are written as reals.
\<close>

record config =
  eval_only :: bool
  model_dir :: "string option"
  ratio_of_source_used :: real
  checkpoint_for_adapter_cfg :: string
  sep_token :: string
  retrievers :: "string list"
  feature :: string
  num_cases :: int
  cbr_threshold :: real
  data_dir :: string
  predictions_dir :: string
  batch_size :: int
  learning_rate :: real
  num_epochs :: int
  classifier_dropout :: real
  weight_decay :: real

text \<open>
  A row of a data frame read from a CSV file maps column names to cells. The cells of the
  columns that the code reads (\<^verbatim>\<open>text\<close>, \<^verbatim>\<open>label\<close> and the feature column) are text.
  Reading a column that the row does not have raises \<^verbatim>\<open>KeyError\<close>.
\<close>

type_synonym row = "string \<rightharpoonup> string"

definition row_get :: "row \<Rightarrow> string \<Rightarrow> py_error + string" where
  "row_get r k = (case r k of None \<Rightarrow> Inl (KeyError k) | Some v \<Rightarrow> Inr v)"

section \<open>create_augmented_case\<close>

text \<open>
  The loop of lines 143-144: \<^verbatim>\<open>augmented_case += f" {config.sep_token} " + similar_case\<close>.
\<close>

fun append_similar_cases :: "string \<Rightarrow> string \<Rightarrow> string list \<Rightarrow> string" where
  "append_similar_cases sep augmented_case [] = augmented_case"
| "append_similar_cases sep augmented_case (similar_case # rest) =
     append_similar_cases sep (augmented_case @ ('' '' @ sep @ '' '') @ similar_case) rest"

text \<open>
  The loop of lines 147-148:
  \<^verbatim>\<open>augmented_case += f" {config.sep_token} {row[config.feature]} {config.sep_token} {similar_case}"\<close>.
  The row's feature column is read inside the loop body, so a row without that column
  raises only when there is at least one similar case.
\<close>

fun append_similar_cases_with_feature ::
  "row \<Rightarrow> string \<Rightarrow> string \<Rightarrow> string \<Rightarrow> string list \<Rightarrow> py_error + string" where
  "append_similar_cases_with_feature r feat sep augmented_case [] = Inr augmented_case"
| "append_similar_cases_with_feature r feat sep augmented_case (similar_case # rest) =
     (case row_get r feat of
        Inl e \<Rightarrow> Inl e
      | Inr f \<Rightarrow>
          append_similar_cases_with_feature r feat sep
            (augmented_case @ ('' '' @ sep @ '' '' @ f @ '' '' @ sep @ '' '' @ similar_case)) rest)"

text \<open>
  Lines 140-149. When \<^verbatim>\<open>config.feature\<close> is in neither list, no branch assigns
  \<^verbatim>\<open>augmented_case\<close> and the \<^verbatim>\<open>return\<close> raises \<^verbatim>\<open>UnboundLocalError\<close>.
\<close>

definition create_augmented_case :: "row \<Rightarrow> config \<Rightarrow> string list \<Rightarrow> py_error + string" where
  "create_augmented_case r cfg similar_cases =
     (if feature cfg \<in> set [''text'', ''explanations'', ''goals''] then
        (case row_get r ''text'' of
           Inl e \<Rightarrow> Inl e
         | Inr t \<Rightarrow> Inr (append_similar_cases (sep_token cfg) t similar_cases))
      else if feature cfg \<in> set [''structure'', ''counter''] then
        (case row_get r ''text'' of
           Inl e \<Rightarrow> Inl e
         | Inr t \<Rightarrow>
             append_similar_cases_with_feature r (feature cfg) (sep_token cfg) t similar_cases)
      else Inl (UnboundLocalError ''augmented_case''))"

section \<open>Data frames\<close>

text \<open>
  A data frame has its column names and its rows, in order. \<^verbatim>\<open>df[c]\<close> raises
  \<^verbatim>\<open>KeyError\<close> when \<open>c\<close> is not a column.
\<close>

record dataframe =
  df_columns :: "string list"
  df_rows :: "row list"

fun column_values :: "row list \<Rightarrow> string \<Rightarrow> py_error + string list" where
  "column_values [] c = Inr []"
| "column_values (r # rs) c =
     (case row_get r c of
        Inl e \<Rightarrow> Inl e
      | Inr v \<Rightarrow> (case column_values rs c of Inl e \<Rightarrow> Inl e | Inr vs \<Rightarrow> Inr (v # vs)))"

definition get_column :: "'a dataframe_scheme \<Rightarrow> string \<Rightarrow> py_error + string list" where
  "get_column df c =
     (if c \<in> set (df_columns df) then column_values (df_rows df) c else Inl (KeyError c))"

text \<open>Lines 31-35 and line 29.\<close>

definition bad_classes :: "string list" where
  "bad_classes = [''prejudicial language'', ''fallacy of slippery slope'', ''slothful induction'']"

definition checkpoint_for_adapter :: string where
  "checkpoint_for_adapter = ''howey/electra-base-mnli''"

text \<open>
  Lines 249-251: \<^verbatim>\<open>df = df[~df["label"].isin(bad_classes)]\<close>. The boolean mask is computed
  from the label column and the rows whose mask entry is false are dropped.
\<close>

definition drop_bad_classes :: "dataframe \<Rightarrow> py_error + dataframe" where
  "drop_bad_classes df =
     (case get_column df ''label'' of
        Inl e \<Rightarrow> Inl e
      | Inr labels \<Rightarrow>
          Inr (df\<lparr>df_rows :=
                 map fst (filter (\<lambda>(r, l). l \<notin> set bad_classes) (zip (df_rows df) labels))\<rparr>))"

section \<open>augment_with_similar_cases\<close>

text \<open>
  What \<^verbatim>\<open>retrieve_similar_cases\<close> returns: a list of dictionaries, of which the code reads
  the keys \<^verbatim>\<open>similar_case\<close> and \<^verbatim>\<open>similar_case_label\<close>. The retriever class lives in the
  module \<^verbatim>\<open>retriever\<close>; here a retriever is the function from the arguments of
  \<^verbatim>\<open>retrieve_similar_cases(case, num_cases, threshold)\<close> to its result or the error it raises.
\<close>

record case_label =
  similar_case :: string
  similar_case_label :: string

type_synonym retriever = "string \<Rightarrow> int \<Rightarrow> real \<Rightarrow> py_error + case_label list"

text \<open>
  Lines 163-167, the call inside the \<^verbatim>\<open>try\<close>: the argument \<^verbatim>\<open>row[config.feature]\<close> is
  evaluated there too, so its \<^verbatim>\<open>KeyError\<close> is raised inside the \<^verbatim>\<open>try\<close>.
\<close>

definition retrieve_similar_cases :: "retriever \<Rightarrow> row \<Rightarrow> config \<Rightarrow> py_error + case_label list" where
  "retrieve_similar_cases rt r cfg =
     (case row_get r (feature cfg) of
        Inl e \<Rightarrow> Inl e
      | Inr q \<Rightarrow> rt q (num_cases cfg) (cbr_threshold cfg))"

text \<open>
  Lines 161-183, the loop over the retrievers for one row. The accumulators are
  \<^verbatim>\<open>row_similar_cases\<close>, \<^verbatim>\<open>row_similar_cases_labels\<close> and what has been printed.
  \<^verbatim>\<open>except Exception\<close> prints the exception and goes on with the next retriever; an error
  that is not an \<^verbatim>\<open>Exception\<close> leaves the loop.
\<close>

fun retrieve_for_row ::
  "row \<Rightarrow> config \<Rightarrow> retriever list \<Rightarrow> string list \<Rightarrow> string list \<Rightarrow> printed list \<Rightarrow>
     printed list \<times> (py_error + string list \<times> string list)" where
  "retrieve_for_row r cfg [] row_similar_cases row_similar_cases_labels out =
     (out, Inr (row_similar_cases, row_similar_cases_labels))"
| "retrieve_for_row r cfg (rt # rts) row_similar_cases row_similar_cases_labels out =
     (case retrieve_similar_cases rt r cfg of
        Inr similar_cases_with_labels \<Rightarrow>
          retrieve_for_row r cfg rts
            (row_similar_cases @ map similar_case similar_cases_with_labels)
            (row_similar_cases_labels @ map similar_case_label similar_cases_with_labels) out
      | Inl e \<Rightarrow>
          if is_Exception e
          then retrieve_for_row r cfg rts row_similar_cases row_similar_cases_labels (out @ [Exc e])
          else (out, Inl e))"

text \<open>
  Lines 158-189, the loop over the rows. The accumulators are \<^verbatim>\<open>all_augmented_cases\<close>,
  \<^verbatim>\<open>all_similar_cases\<close> and \<^verbatim>\<open>all_similar_cases_labels\<close>. The call of
  \<^verbatim>\<open>create_augmented_case\<close> is outside the \<^verbatim>\<open>try\<close>: its error leaves the function.
\<close>

fun augment_rows ::
  "row list \<Rightarrow> retriever list \<Rightarrow> config \<Rightarrow> string list \<Rightarrow> string list list \<Rightarrow> string list list \<Rightarrow>
     printed list \<Rightarrow> printed list \<times> (py_error + string list \<times> string list list \<times> string list list)" where
  "augment_rows [] rts cfg all_augmented all_similar all_labels out =
     (out, Inr (all_augmented, all_similar, all_labels))"
| "augment_rows (r # rs) rts cfg all_augmented all_similar all_labels out =
     (case retrieve_for_row r cfg rts [] [] out of
        (out', Inl e) \<Rightarrow> (out', Inl e)
      | (out', Inr (row_similar_cases, row_similar_cases_labels)) \<Rightarrow>
          (case create_augmented_case r cfg row_similar_cases of
             Inl e \<Rightarrow> (out', Inl e)
           | Inr augmented_case \<Rightarrow>
               augment_rows rs rts cfg (all_augmented @ [augmented_case])
                 (all_similar @ [row_similar_cases]) (all_labels @ [row_similar_cases_labels]) out'))"

text \<open>
  A data frame with the three columns that lines 191-193 add. Their cells are not text,
  so they are fields of their own, one entry for each row.
\<close>

record aug_dataframe = dataframe +
  augmented_cases :: "string list"
  similar_cases :: "string list list"
  similar_cases_labels :: "string list list"

text \<open>Lines 152-194. The first argument of the result is what has been printed so far.\<close>

definition augment_with_similar_cases ::
  "dataframe \<Rightarrow> retriever list \<Rightarrow> config \<Rightarrow> printed list \<Rightarrow> printed list \<times> (py_error + aug_dataframe)" where
  "augment_with_similar_cases df rts cfg out =
     (case augment_rows (df_rows df) rts cfg [] [] [] out of
        (out', Inl e) \<Rightarrow> (out', Inl e)
      | (out', Inr (all_augmented, all_similar, all_labels)) \<Rightarrow>
          (out', Inr (dataframe.extend df
             \<lparr>augmented_cases = all_augmented, similar_cases = all_similar,
              similar_cases_labels = all_labels\<rparr>)))"

section \<open>The label encoder\<close>

text \<open>
  \<^verbatim>\<open>sklearn.preprocessing.LabelEncoder\<close> is a library class. Its documented behaviour:
  \<^verbatim>\<open>fit\<close> stores the sorted distinct labels in \<^verbatim>\<open>classes_\<close>; \<^verbatim>\<open>transform\<close> maps each
  label to its position in \<^verbatim>\<open>classes_\<close> and raises \<^verbatim>\<open>ValueError\<close> on a label that is not
  there; \<^verbatim>\<open>inverse_transform\<close> maps a position back to the label and raises
  \<^verbatim>\<open>ValueError\<close> on a position out of range.
\<close>

record LabelEncoder =
  le_classes :: "string list"

definition fit :: "string list \<Rightarrow> LabelEncoder" where
  "fit y = \<lparr>le_classes = sort (remdups y)\<rparr>"

fun index_of :: "'a list \<Rightarrow> 'a \<Rightarrow> nat option" where
  "index_of [] y = None"
| "index_of (x # xs) y = (if x = y then Some 0 else map_option Suc (index_of xs y))"

fun transform :: "LabelEncoder \<Rightarrow> string list \<Rightarrow> py_error + nat list" where
  "transform le [] = Inr []"
| "transform le (y # ys) =
     (case index_of (le_classes le) y of
        None \<Rightarrow> Inl (ValueError ''y contains previously unseen labels'')
      | Some i \<Rightarrow> (case transform le ys of Inl e \<Rightarrow> Inl e | Inr ids \<Rightarrow> Inr (i # ids)))"

fun inverse_transform :: "LabelEncoder \<Rightarrow> nat list \<Rightarrow> py_error + string list" where
  "inverse_transform le [] = Inr []"
| "inverse_transform le (i # ids) =
     (if i < length (le_classes le)
      then (case inverse_transform le ids of
              Inl e \<Rightarrow> Inl e
            | Inr ys \<Rightarrow> Inr (le_classes le ! i # ys))
      else Inl (ValueError ''y contains previously unseen labels''))"

text \<open>
  A data frame whose label column has been replaced by the encoded labels (lines 271-273):
  the column \<^verbatim>\<open>label\<close> is \<open>label_ids\<close> and is no longer among the text cells.
\<close>

record enc_dataframe = aug_dataframe +
  label_ids :: "nat list"

definition set_encoded_labels :: "aug_dataframe \<Rightarrow> nat list \<Rightarrow> enc_dataframe" where
  "set_encoded_labels df ids =
     aug_dataframe.extend
       (df\<lparr>df_columns := removeAll ''label'' (df_columns df),
           df_rows := map (\<lambda>r. r(''label'' := None)) (df_rows df)\<rparr>)
       \<lparr>label_ids = ids\<rparr>"

definition encode_split :: "LabelEncoder \<Rightarrow> aug_dataframe \<Rightarrow> py_error + enc_dataframe" where
  "encode_split le df =
     (case get_column df ''label'' of
        Inl e \<Rightarrow> Inl e
      | Inr labels \<Rightarrow>
          (case transform le labels of
             Inl e \<Rightarrow> Inl e
           | Inr ids \<Rightarrow> Inr (set_encoded_labels df ids)))"

section \<open>save_results\<close>

text \<open>\<^verbatim>\<open>os.path.join\<close> of two components, on a POSIX system.\<close>

definition path_join :: "string \<Rightarrow> string \<Rightarrow> string" where
  "path_join a b =
     (if b \<noteq> [] \<and> hd b = CHR ''/'' then b
      else if a = [] \<or> last a = CHR ''/'' then a @ b
      else a @ ''/'' @ b)"

text \<open>The dictionary that \<^verbatim>\<open>save_results\<close> builds; \<open>'p\<close> is the type of the predictions.\<close>

record 'p outputs_dict =
  od_note :: string
  od_label_encoder :: LabelEncoder
  od_meta :: config
  od_predictions :: "'p option"
  od_text :: "string list"
  od_augmented_cases :: "string list"
  od_similar_cases :: "string list list"
  od_similar_cases_labels :: "string list list"

text \<open>The files that \<^verbatim>\<open>joblib.dump\<close> has written, by path.\<close>

type_synonym 'p files = "string \<rightharpoonup> 'p outputs_dict"

text \<open>Line 235: the value bound to \<^verbatim>\<open>file_name\<close>; \<open>now\<close> is \<^verbatim>\<open>datetime.today().isoformat()\<close>.\<close>

definition file_name :: "config \<Rightarrow> string \<Rightarrow> string" where
  "file_name cfg now = path_join (predictions_dir cfg) (''outputs_dict__'' @ now @ ''.joblib'')"

text \<open>
  Lines 216-237. \<^verbatim>\<open>predictions._asdict() if predictions else None\<close> keeps the predictions
  when there are some. The result is the files after \<^verbatim>\<open>joblib.dump\<close>.
\<close>

definition save_results ::
  "config \<Rightarrow> LabelEncoder \<Rightarrow> 'p option \<Rightarrow> enc_dataframe \<Rightarrow> string \<Rightarrow> 'p files \<Rightarrow> py_error + 'p files" where
  "save_results cfg label_encoder predictions test_df now fs =
     (case get_column test_df ''text'' of
        Inl e \<Rightarrow> Inl e
      | Inr text \<Rightarrow>
          (let outputs_dict =
                 \<lparr>od_note = ''electra_model_with_attention_check_cbr_different_features_for_retrieval'',
                  od_label_encoder = label_encoder,
                  od_meta = cfg,
                  od_predictions = predictions,
                  od_text = text,
                  od_augmented_cases = augmented_cases test_df,
                  od_similar_cases = similar_cases test_df,
                  od_similar_cases_labels = similar_cases_labels test_df\<rparr>;
               file_name = file_name cfg now
           in Inr (fs(''res2.joblib'' \<mapsto> outputs_dict))))"

section \<open>do_train_process\<close>

text \<open>
  The collaborators of \<^verbatim>\<open>do_train_process\<close> that are not part of \<^verbatim>\<open>electra.py\<close>: reading a
  CSV file, the constructor of the retriever, the tokenizer, model, dataset and trainer of
  the training framework, and the clock. Each is a parameter, and each call either
  returns or raises. The type variables stand for the tokenizer, the model, a dataset
  dictionary, the trainer and the predictions.
\<close>

record training_args =
  output_dir :: string
  ta_learning_rate :: real
  ta_batch_size :: int
  ta_num_train_epochs :: int
  ta_weight_decay :: real

record ('k, 'm, 'd, 't, 'p) env =
  read_csv :: "string \<Rightarrow> py_error + dataframe"
  SimCSE_Retriever :: "config \<Rightarrow> py_error + retriever"
  from_pandas :: "enc_dataframe \<Rightarrow> enc_dataframe \<Rightarrow> enc_dataframe \<Rightarrow> py_error + 'd"
  tokenizer_from_pretrained :: "string option \<Rightarrow> py_error + 'k"
  model_from_pretrained :: "string option \<Rightarrow> (nat \<times> real) option \<Rightarrow> py_error + 'm"
  dataset_map :: "'k \<Rightarrow> 'd \<Rightarrow> py_error + 'd"
  CustomTrainer :: "'m \<Rightarrow> training_args \<Rightarrow> 'd \<Rightarrow> 'k \<Rightarrow> py_error + 't"
  trainer_train :: "'t \<Rightarrow> py_error + 't"
  trainer_save_model :: "'t \<Rightarrow> string \<Rightarrow> py_error + unit"
  trainer_predict :: "'t \<Rightarrow> 'd \<Rightarrow> py_error + 'p"
  today_isoformat :: string

text \<open>
  How far a run has come, and the state it ends in: what it printed, the values of its
  variables (\<open>None\<close> while unassigned), the files written by \<^verbatim>\<open>joblib.dump\<close> and the
  error that ended it, if any.
\<close>

datatype phase =
  ReadData | BuildRetrievers | Augment | EncodeLabels | LoadModel | Train | Predict
  | SaveResults | Finished

record 'p run =
  phase :: phase
  stdout :: "printed list"
  splits :: "(dataframe \<times> dataframe \<times> dataframe) option"
  augmented :: "(aug_dataframe \<times> aug_dataframe \<times> aug_dataframe) option"
  label_encoder :: "LabelEncoder option"
  encoded :: "(enc_dataframe \<times> enc_dataframe \<times> enc_dataframe) option"
  trained :: bool
  predictions :: "'p option"
  files :: "'p files"
  raised :: "py_error option"

text \<open>Lines 244-251: the three files are read, then each frame is filtered.\<close>

definition read_splits ::
  "('k, 'm, 'd, 't, 'p) env \<Rightarrow> config \<Rightarrow> py_error + dataframe \<times> dataframe \<times> dataframe" where
  "read_splits env cfg =
     (case read_csv env (path_join (data_dir cfg) ''train.csv'') of Inl e \<Rightarrow> Inl e | Inr train_df \<Rightarrow>
      case read_csv env (path_join (data_dir cfg) ''dev.csv'') of Inl e \<Rightarrow> Inl e | Inr dev_df \<Rightarrow>
      case read_csv env (path_join (data_dir cfg) ''test.csv'') of Inl e \<Rightarrow> Inl e | Inr test_df \<Rightarrow>
      case drop_bad_classes train_df of Inl e \<Rightarrow> Inl e | Inr train_df \<Rightarrow>
      case drop_bad_classes dev_df of Inl e \<Rightarrow> Inl e | Inr dev_df \<Rightarrow>
      case drop_bad_classes test_df of Inl e \<Rightarrow> Inl e | Inr test_df \<Rightarrow>
      Inr (train_df, dev_df, test_df))"

text \<open>
  Lines 254-261, the loop over \<^verbatim>\<open>config.retrievers\<close>; the accumulators are
  \<^verbatim>\<open>retrievers_to_use\<close> and what has been printed. A name other than \<^verbatim>\<open>simcse\<close> prints
  the message and calls \<^verbatim>\<open>exit()\<close>.
\<close>

fun build_retrievers ::
  "('k, 'm, 'd, 't, 'p) env \<Rightarrow> config \<Rightarrow> string list \<Rightarrow> retriever list \<Rightarrow> printed list \<Rightarrow>
     printed list \<times> (py_error + retriever list)" where
  "build_retrievers env cfg [] retrievers_to_use out = (out, Inr retrievers_to_use)"
| "build_retrievers env cfg (retriever_str # rest) retrievers_to_use out =
     (if retriever_str = ''simcse'' then
        (case SimCSE_Retriever env cfg of
           Inl e \<Rightarrow> (out, Inl e)
         | Inr simcse_retriever \<Rightarrow>
             build_retrievers env cfg rest (retrievers_to_use @ [simcse_retriever]) out)
      else (out @ [Text ''retreiver not found''], Inl SystemExit))"

text \<open>Lines 263-265: the three frames are augmented in the order train, dev, test.\<close>

definition augment_splits ::
  "dataframe \<Rightarrow> dataframe \<Rightarrow> dataframe \<Rightarrow> retriever list \<Rightarrow> config \<Rightarrow> printed list \<Rightarrow>
     printed list \<times> (py_error + aug_dataframe \<times> aug_dataframe \<times> aug_dataframe)" where
  "augment_splits train_df dev_df test_df rts cfg out =
     (case augment_with_similar_cases train_df rts cfg out of
        (out, Inl e) \<Rightarrow> (out, Inl e)
      | (out, Inr train_df) \<Rightarrow>
     (case augment_with_similar_cases dev_df rts cfg out of
        (out, Inl e) \<Rightarrow> (out, Inl e)
      | (out, Inr dev_df) \<Rightarrow>
     (case augment_with_similar_cases test_df rts cfg out of
        (out, Inl e) \<Rightarrow> (out, Inl e)
      | (out, Inr test_df) \<Rightarrow> (out, Inr (train_df, dev_df, test_df)))))"

text \<open>Lines 271-273: the label column of each frame is replaced by its encoding.\<close>

definition encode_splits ::
  "LabelEncoder \<Rightarrow> aug_dataframe \<Rightarrow> aug_dataframe \<Rightarrow> aug_dataframe \<Rightarrow>
     py_error + enc_dataframe \<times> enc_dataframe \<times> enc_dataframe" where
  "encode_splits le train_df dev_df test_df =
     (case encode_split le train_df of Inl e \<Rightarrow> Inl e | Inr train_df \<Rightarrow>
      case encode_split le dev_df of Inl e \<Rightarrow> Inl e | Inr dev_df \<Rightarrow>
      case encode_split le test_df of Inl e \<Rightarrow> Inl e | Inr test_df \<Rightarrow>
      Inr (train_df, dev_df, test_df))"

text \<open>\<^verbatim>\<open>config.data_dir.replace('/', '_')\<close>.\<close>

definition replace_slashes :: "string \<Rightarrow> string" where
  "replace_slashes s = map (\<lambda>c. if c = CHR ''/'' then CHR ''_'' else c) s"

text \<open>Lines 314-332: the arguments of the trainer that depend on the configuration.\<close>

definition make_training_args :: "config \<Rightarrow> training_args" where
  "make_training_args cfg =
     \<lparr>output_dir =
        ''models/cbr_electra_logical_fallacy_classification_'' @ replace_slashes (data_dir cfg),
      ta_learning_rate = learning_rate cfg,
      ta_batch_size = batch_size cfg,
      ta_num_train_epochs = num_epochs cfg,
      ta_weight_decay = weight_decay cfg\<rparr>"

text \<open>
  Lines 275-350: the datasets, the tokenizer and the model are made, the datasets are
  tokenized, \<^verbatim>\<open>Model loaded!\<close> is printed and the trainer is constructed.
\<close>

definition load_model ::
  "('k, 'm, 'd, 't, 'p) env \<Rightarrow> config \<Rightarrow> LabelEncoder \<Rightarrow>
     enc_dataframe \<Rightarrow> enc_dataframe \<Rightarrow> enc_dataframe \<Rightarrow> printed list \<Rightarrow>
     printed list \<times> (py_error + 't \<times> 'd)" where
  "load_model env cfg le train_df dev_df test_df out =
     (case from_pandas env train_df dev_df test_df of Inl e \<Rightarrow> (out, Inl e) | Inr dataset \<Rightarrow>
      case (if eval_only cfg then tokenizer_from_pretrained env (model_dir cfg)
            else tokenizer_from_pretrained env (Some checkpoint_for_adapter)) of
        Inl e \<Rightarrow> (out, Inl e) | Inr tokenizer \<Rightarrow>
      case (if eval_only cfg then model_from_pretrained env (model_dir cfg) None
            else model_from_pretrained env (Some checkpoint_for_adapter)
                   (Some (length (le_classes le), classifier_dropout cfg))) of
        Inl e \<Rightarrow> (out, Inl e) | Inr model \<Rightarrow>
      case dataset_map env tokenizer dataset of Inl e \<Rightarrow> (out, Inl e) | Inr tokenized_dataset \<Rightarrow>
      case CustomTrainer env model (make_training_args cfg) tokenized_dataset tokenizer of
        Inl e \<Rightarrow> (out @ [Text ''Model loaded!''], Inl e)
      | Inr trainer \<Rightarrow> (out @ [Text ''Model loaded!''], Inr (trainer, tokenized_dataset)))"

text \<open>Lines 352-358: unless \<^verbatim>\<open>eval_only\<close>, the model is trained and saved.\<close>

definition train_model ::
  "('k, 'm, 'd, 't, 'p) env \<Rightarrow> config \<Rightarrow> 't \<Rightarrow> printed list \<Rightarrow> printed list \<times> (py_error + 't)" where
  "train_model env cfg trainer out =
     (if \<not> eval_only cfg then
        (case trainer_train env trainer of
           Inl e \<Rightarrow> (out @ [Text ''Start the training ...''], Inl e)
         | Inr trainer \<Rightarrow>
             (case trainer_save_model env trainer
                     (''models/cbr_electra_logical_fallacy_classification_''
                        @ replace_slashes (data_dir cfg) @ ''_feature_'' @ feature cfg) of
                Inl e \<Rightarrow> (out @ [Text ''Start the training ...''], Inl e)
              | Inr _ \<Rightarrow> (out @ [Text ''Start the training ...''], Inr trainer)))
      else (out, Inr trainer))"

text \<open>
  Lines 240-364. \<^verbatim>\<open>wandb.init\<close> hands the function its configuration, which is the
  argument \<open>cfg\<close>; \<open>fs\<close> are the files before the run.
\<close>

definition do_train_process :: "('k, 'm, 'd, 't, 'p) env \<Rightarrow> config \<Rightarrow> 'p files \<Rightarrow> 'p run" where
  "do_train_process env cfg fs =
     (let s = \<lparr>phase = ReadData, stdout = [], splits = None, augmented = None,
               label_encoder = None, encoded = None, trained = False, predictions = None,
               files = fs, raised = None\<rparr> in
      case read_splits env cfg of
        Inl e \<Rightarrow> s\<lparr>raised := Some e\<rparr>
      | Inr (train_df, dev_df, test_df) \<Rightarrow>
     (let s = s\<lparr>phase := BuildRetrievers, splits := Some (train_df, dev_df, test_df)\<rparr> in
      case build_retrievers env cfg (retrievers cfg) [] (stdout s) of
        (out, Inl e) \<Rightarrow> s\<lparr>stdout := out, raised := Some e\<rparr>
      | (out, Inr retrievers_to_use) \<Rightarrow>
     (let s = s\<lparr>phase := Augment, stdout := out\<rparr> in
      case augment_splits train_df dev_df test_df retrievers_to_use cfg (stdout s) of
        (out, Inl e) \<Rightarrow> s\<lparr>stdout := out, raised := Some e\<rparr>
      | (out, Inr (train_df, dev_df, test_df)) \<Rightarrow>
     (let s = s\<lparr>phase := EncodeLabels, stdout := out,
                augmented := Some (train_df, dev_df, test_df)\<rparr> in
      case get_column train_df ''label'' of
        Inl e \<Rightarrow> s\<lparr>raised := Some e\<rparr>
      | Inr y \<Rightarrow>
     (let s = s\<lparr>label_encoder := Some (fit y)\<rparr> in
      case encode_splits (fit y) train_df dev_df test_df of
        Inl e \<Rightarrow> s\<lparr>raised := Some e\<rparr>
      | Inr (train_df, dev_df, test_df) \<Rightarrow>
     (let s = s\<lparr>phase := LoadModel, encoded := Some (train_df, dev_df, test_df)\<rparr> in
      case load_model env cfg (fit y) train_df dev_df test_df (stdout s) of
        (out, Inl e) \<Rightarrow> s\<lparr>stdout := out, raised := Some e\<rparr>
      | (out, Inr (trainer, tokenized_dataset)) \<Rightarrow>
     (let s = s\<lparr>phase := Train, stdout := out\<rparr> in
      case train_model env cfg trainer (stdout s) of
        (out, Inl e) \<Rightarrow> s\<lparr>stdout := out, raised := Some e\<rparr>
      | (out, Inr trainer) \<Rightarrow>
     (let s = s\<lparr>phase := Predict, stdout := out, trained := (\<not> eval_only cfg)\<rparr> in
      case trainer_predict env trainer tokenized_dataset of
        Inl e \<Rightarrow> s\<lparr>raised := Some e\<rparr>
      | Inr p \<Rightarrow>
     (let s = s\<lparr>phase := SaveResults, predictions := Some p\<rparr> in
      case save_results cfg (fit y) (Some p) test_df (today_isoformat env) (files s) of
        Inl e \<Rightarrow> s\<lparr>raised := Some e\<rparr>
      | Inr fs' \<Rightarrow> s\<lparr>phase := Finished, files := fs'\<rparr>)))))))))"

section \<open>The classifier and its loss\<close>

text \<open>
  Tensors are values of a type \<open>'t\<close>. The modules of the model are parameters. A module
  may draw random numbers (\<^verbatim>\<open>nn.Dropout\<close> does in training mode), so a call takes the state
  \<open>'g\<close> of the random number generator and the modules and gives it back with its result;
  two calls with the same arguments need not agree. The loss functions of the tensor
  library are constructed without arguments, so they reduce to one scalar (the mean): their
  results are of a type \<open>'s\<close> of scalars, and they may raise, as they do on a target whose
  shape does not fit.
\<close>

fun bind_call ::
  "(py_error + 'a) \<times> 'g \<Rightarrow> ('a \<Rightarrow> 'g \<Rightarrow> (py_error + 'b) \<times> 'g) \<Rightarrow> (py_error + 'b) \<times> 'g" where
  "bind_call (Inl e, g) f = (Inl e, g)"
| "bind_call (Inr x, g) f = f x g"

record ('t, 's) torch_nn =
  BCEWithLogitsLoss :: "'t \<Rightarrow> 't \<Rightarrow> py_error + 's"
  CrossEntropyLoss :: "'t \<Rightarrow> 't \<Rightarrow> py_error + 's"
  gelu :: "'t \<Rightarrow> 't"
  first_position :: "'t \<Rightarrow> py_error + 't"

text \<open>
  Lines 39-55, the classification head: its two linear layers and its dropout layer, and
  \<^verbatim>\<open>forward\<close>, which takes \<^verbatim>\<open>features[:, 0, :]\<close> and applies dropout, \<^verbatim>\<open>dense\<close>, the
  activation \<^verbatim>\<open>gelu\<close>, dropout again and \<^verbatim>\<open>out_proj\<close>.
\<close>

record ('t, 'g) ElectraClassificationHead =
  dense :: "'t \<Rightarrow> py_error + 't"
  dropout :: "'t \<Rightarrow> 'g \<Rightarrow> 't \<times> 'g"
  out_proj :: "'t \<Rightarrow> py_error + 't"

definition head_forward ::
  "('t, 's) torch_nn \<Rightarrow> ('t, 'g) ElectraClassificationHead \<Rightarrow> 't \<Rightarrow> 'g \<Rightarrow> (py_error + 't) \<times> 'g" where
  "head_forward nn self features g =
     bind_call (first_position nn features, g) (\<lambda>x g.
     case dropout self x g of (x, g) \<Rightarrow>
     bind_call (dense self x, g) (\<lambda>x g.
     case dropout self (gelu nn x) g of (x, g) \<Rightarrow>
     (out_proj self x, g)))"

record 't encoder_args =
  ea_input_ids :: "'t option"
  ea_attention_mask :: "'t option"
  ea_token_type_ids :: "'t option"
  ea_position_ids :: "'t option"
  ea_head_mask :: "'t option"
  ea_inputs_embeds :: "'t option"
  ea_output_attentions :: "bool option"
  ea_output_hidden_states :: "bool option"
  ea_return_dict :: bool

text \<open>
  The output of the encoder. As a tuple it is the sequence output followed by those of the
  other entries that are present.
\<close>

record 't encoder_output =
  last_hidden_state :: 't
  eo_hidden_states :: "'t option"
  eo_attentions :: "'t option"

definition tuple_tail :: "'t encoder_output \<Rightarrow> 't list" where
  "tuple_tail out =
     (case eo_hidden_states out of None \<Rightarrow> [] | Some h \<Rightarrow> [h])
     @ (case eo_attentions out of None \<Rightarrow> [] | Some a \<Rightarrow> [a])"

record ('t, 'g) ElectraForSequenceClassification =
  electra :: "'t encoder_args \<Rightarrow> 'g \<Rightarrow> (py_error + 't encoder_output) \<times> 'g"
  attention :: "'t \<Rightarrow> 't \<Rightarrow> 't \<Rightarrow> 'g \<Rightarrow> (py_error + 't \<times> 't) \<times> 'g"
  classifier :: "('t, 'g) ElectraClassificationHead"
  problem_type :: "string option"
  use_return_dict :: bool

record 't forward_args =
  input_ids :: "'t option"
  attention_mask :: "'t option"
  input_ids_cbr :: "'t option"
  attention_mask_cbr :: "'t option"
  token_type_ids :: "'t option"
  position_ids :: "'t option"
  head_mask :: "'t option"
  inputs_embeds :: "'t option"
  labels :: "'t option"
  output_attentions :: "bool option"
  output_hidden_states :: "bool option"
  return_dict :: "bool option"

record ('t, 's) SequenceClassifierOutput =
  loss :: "'s option"
  logits :: 't
  hidden_states :: "'t option"
  attentions :: "'t option"

text \<open>
  What the forward pass returns: the tuple of line 130, which starts with the loss when
  there is one and goes on with the logits and the rest of the encoder's tuple, or the
  output object of lines 132-137.
\<close>

datatype ('t, 's) forward_output =
    TupleOutput "'s option" "'t list"
  | DictOutput "('t, 's) SequenceClassifierOutput"

text \<open>Lines 122-126: the loss that the forward pass computes itself.\<close>

definition internal_loss ::
  "('t, 's) torch_nn \<Rightarrow> ('t, 'g) ElectraForSequenceClassification \<Rightarrow> 't \<Rightarrow> 't option \<Rightarrow>
     py_error + 's option" where
  "internal_loss nn self lgts lbls =
     (case lbls of
        None \<Rightarrow> Inr None
      | Some l \<Rightarrow>
          if problem_type self = None
          then (case BCEWithLogitsLoss nn lgts l of Inl e \<Rightarrow> Inl e | Inr v \<Rightarrow> Inr (Some v))
          else Inr None)"

text \<open>Lines 71-137.\<close>

definition forward ::
  "('t, 's) torch_nn \<Rightarrow> ('t, 'g) ElectraForSequenceClassification \<Rightarrow> 't forward_args \<Rightarrow> 'g \<Rightarrow>
     (py_error + ('t, 's) forward_output) \<times> 'g" where
  "forward nn self a g =
     (let rd = (case return_dict a of Some b \<Rightarrow> b | None \<Rightarrow> use_return_dict self) in
      bind_call
        (electra self
           \<lparr>ea_input_ids = input_ids a, ea_attention_mask = attention_mask a,
            ea_token_type_ids = token_type_ids a, ea_position_ids = position_ids a,
            ea_head_mask = head_mask a, ea_inputs_embeds = inputs_embeds a,
            ea_output_attentions = output_attentions a,
            ea_output_hidden_states = output_hidden_states a, ea_return_dict = rd\<rparr> g)
        (\<lambda>discriminator_hidden_states g.
      bind_call
        (electra self
           \<lparr>ea_input_ids = input_ids_cbr a, ea_attention_mask = attention_mask_cbr a,
            ea_token_type_ids = token_type_ids a, ea_position_ids = position_ids a,
            ea_head_mask = head_mask a, ea_inputs_embeds = inputs_embeds a,
            ea_output_attentions = output_attentions a,
            ea_output_hidden_states = output_hidden_states a, ea_return_dict = rd\<rparr> g)
        (\<lambda>discriminator_hidden_states_cbr g.
      bind_call
        (attention self (last_hidden_state discriminator_hidden_states)
           (last_hidden_state discriminator_hidden_states_cbr)
           (last_hidden_state discriminator_hidden_states_cbr) g)
        (\<lambda>final_output_and_weights g.
      bind_call (head_forward nn (classifier self) (fst final_output_and_weights) g)
        (\<lambda>lgts g.
      case internal_loss nn self lgts (labels a) of
        Inl e \<Rightarrow> (Inl e, g)
      | Inr ls \<Rightarrow>
          if \<not> rd
          then (Inr (TupleOutput ls (lgts # tuple_tail discriminator_hidden_states)), g)
          else (Inr (DictOutput
                  \<lparr>loss = ls, logits = lgts,
                   hidden_states = eo_hidden_states discriminator_hidden_states,
                   attentions = eo_attentions discriminator_hidden_states\<rparr>), g))))))"

text \<open>
  A batch as the trainer hands it to \<^verbatim>\<open>compute_loss\<close>: the four tensors that
  \<^verbatim>\<open>process\<close> makes, and the labels, which are read with \<^verbatim>\<open>inputs.get("labels")\<close>.
\<close>

record 't batch =
  b_input_ids :: 't
  b_attention_mask :: 't
  b_input_ids_cbr :: 't
  b_attention_mask_cbr :: 't
  b_labels :: "'t option"

text \<open>The call of the model at lines 202-207: four keyword arguments, no labels.\<close>

definition model_call_args :: "'t batch \<Rightarrow> 't forward_args" where
  "model_call_args inputs =
     \<lparr>input_ids = Some (b_input_ids inputs), attention_mask = Some (b_attention_mask inputs),
      input_ids_cbr = Some (b_input_ids_cbr inputs),
      attention_mask_cbr = Some (b_attention_mask_cbr inputs),
      token_type_ids = None, position_ids = None, head_mask = None, inputs_embeds = None,
      labels = None, output_attentions = None, output_hidden_states = None,
      return_dict = None\<rparr>"

text \<open>
  Lines 201-213. A tuple has no method \<^verbatim>\<open>get\<close>; the loss function does not accept
  \<^verbatim>\<open>None\<close> as its target. The result is the loss, with the outputs when
  \<^verbatim>\<open>return_outputs\<close> is set.
\<close>

definition compute_loss ::
  "('t, 's) torch_nn \<Rightarrow> ('t, 'g) ElectraForSequenceClassification \<Rightarrow> 't batch \<Rightarrow> bool \<Rightarrow> 'g \<Rightarrow>
     (py_error + 's \<times> ('t, 's) forward_output option) \<times> 'g" where
  "compute_loss nn model inputs return_outputs g =
     bind_call (forward nn model (model_call_args inputs) g) (\<lambda>outputs g.
       case outputs of
         TupleOutput _ _ \<Rightarrow> (Inl (AttributeError ''get''), g)
       | DictOutput d \<Rightarrow>
           (case b_labels inputs of
              None \<Rightarrow> (Inl (TypeError ''target''), g)
            | Some lbls \<Rightarrow>
                (case CrossEntropyLoss nn (logits d) lbls of
                   Inl e \<Rightarrow> (Inl e, g)
                 | Inr l \<Rightarrow> (Inr (l, if return_outputs then Some outputs else None), g))))"

section \<open>Constants used to state and instantiate the properties\<close>

text \<open>The five feature modes that \<^verbatim>\<open>create_augmented_case\<close> tests for (lines 141 and 145).\<close>

definition recognized_features :: "string list" where
  "recognized_features = [''text'', ''explanations'', ''goals'', ''structure'', ''counter'']"

text \<open>
  The configuration that lines 423-440 build when the script is started without arguments,
  with the second value of the threshold sweep.
\<close>

definition default_config :: config where
  "default_config =
     \<lparr>eval_only = False, model_dir = None, ratio_of_source_used = 1,
      checkpoint_for_adapter_cfg = checkpoint_for_adapter, sep_token = ''[SEP]'',
      retrievers = [''simcse''], feature = ''text'', num_cases = 1, cbr_threshold = 1 / 2,
      data_dir = ''../data/final_data'', predictions_dir = ''cache/predictions/all'',
      batch_size = 8, learning_rate = 8448 / 100000000, num_epochs = 6,
      classifier_dropout = 1 / 10, weight_decay = 5 / 100\<rparr>"

text \<open>
  What one retriever contributes to one row when an error of the retriever counts as
  "zero cases retrieved", and the similar cases and labels of a row collected that way
  from a list of retrievers, in the order of the list.
\<close>

definition retrieved_or_zero :: "retriever \<Rightarrow> row \<Rightarrow> config \<Rightarrow> case_label list" where
  "retrieved_or_zero rt r cfg =
     (case retrieve_similar_cases rt r cfg of Inl e \<Rightarrow> [] | Inr found \<Rightarrow> found)"

definition row_similar_cases :: "retriever list \<Rightarrow> config \<Rightarrow> row \<Rightarrow> string list" where
  "row_similar_cases rts cfg r =
     concat (map (\<lambda>rt. map similar_case (retrieved_or_zero rt r cfg)) rts)"

definition row_similar_cases_labels :: "retriever list \<Rightarrow> config \<Rightarrow> row \<Rightarrow> string list" where
  "row_similar_cases_labels rts cfg r =
     concat (map (\<lambda>rt. map similar_case_label (retrieved_or_zero rt r cfg)) rts)"

text \<open>
  A data set of five rows and two mock retrievers: one fails on the text of the row with
  index 2 and otherwise answers as the other one, which never fails.
\<close>

definition five_rows :: dataframe where
  "five_rows =
     \<lparr>df_columns = [''text'', ''label''],
      df_rows =
        [[''text'' \<mapsto> ''first'', ''label'' \<mapsto> ''ad hominem''],
         [''text'' \<mapsto> ''second'', ''label'' \<mapsto> ''ad populum''],
         [''text'' \<mapsto> ''third'', ''label'' \<mapsto> ''ad hominem''],
         [''text'' \<mapsto> ''fourth'', ''label'' \<mapsto> ''false causality''],
         [''text'' \<mapsto> ''fifth'', ''label'' \<mapsto> ''ad populum'']]\<rparr>"

definition steady_retriever :: retriever where
  "steady_retriever q n t =
     Inr [\<lparr>similar_case = ''like '' @ q, similar_case_label = ''ad hominem''\<rparr>]"

definition failing_retriever :: retriever where
  "failing_retriever q n t =
     (if q = ''third'' then Inl (RuntimeError ''mock failure'') else steady_retriever q n t)"

text \<open>
  A small world to run \<^verbatim>\<open>do_train_process\<close> in: three CSV files under the default data
  directory, each with a row of one of the \<^verbatim>\<open>bad_classes\<close>, a retriever constructor that
  gives the mock retriever, and a training framework whose calls all succeed.
\<close>

definition train_csv :: dataframe where
  "train_csv =
     \<lparr>df_columns = [''text'', ''label''],
      df_rows =
        [[''text'' \<mapsto> ''t1'', ''label'' \<mapsto> ''ad populum''],
         [''text'' \<mapsto> ''t2'', ''label'' \<mapsto> ''fallacy of slippery slope''],
         [''text'' \<mapsto> ''t3'', ''label'' \<mapsto> ''ad hominem''],
         [''text'' \<mapsto> ''t4'', ''label'' \<mapsto> ''ad populum'']]\<rparr>"

definition dev_csv :: dataframe where
  "dev_csv =
     \<lparr>df_columns = [''text'', ''label''],
      df_rows =
        [[''text'' \<mapsto> ''d1'', ''label'' \<mapsto> ''slothful induction''],
         [''text'' \<mapsto> ''d2'', ''label'' \<mapsto> ''ad hominem'']]\<rparr>"

definition test_csv :: dataframe where
  "test_csv =
     \<lparr>df_columns = [''text'', ''label''],
      df_rows =
        [[''text'' \<mapsto> ''e1'', ''label'' \<mapsto> ''ad populum''],
         [''text'' \<mapsto> ''e2'', ''label'' \<mapsto> ''prejudicial language'']]\<rparr>"

definition tiny_env :: "(unit, unit, unit, unit, string) env" where
  "tiny_env =
     \<lparr>read_csv = (\<lambda>p. if p = ''../data/final_data/train.csv'' then Inr train_csv
                        else if p = ''../data/final_data/dev.csv'' then Inr dev_csv
                        else if p = ''../data/final_data/test.csv'' then Inr test_csv
                        else Inl (OSError p)),
      SimCSE_Retriever = (\<lambda>cfg. Inr steady_retriever),
      from_pandas = (\<lambda>train_df dev_df test_df. Inr ()),
      tokenizer_from_pretrained = (\<lambda>p. Inr ()),
      model_from_pretrained = (\<lambda>p kw. Inr ()),
      dataset_map = (\<lambda>tokenizer dataset. Inr ()),
      CustomTrainer = (\<lambda>model args dataset tokenizer. Inr ()),
      trainer_train = (\<lambda>trainer. Inr ()),
      trainer_save_model = (\<lambda>trainer p. Inr ()),
      trainer_predict = (\<lambda>trainer dataset. Inr ''predictions''),
      today_isoformat = ''2024-01-01T00:00:00.000000''\<rparr>"

text \<open>The rows that lines 249-251 are meant to remove: those whose label is a bad class.\<close>

definition label_in_bad_classes :: "row \<Rightarrow> bool" where
  "label_in_bad_classes r = (case r ''label'' of None \<Rightarrow> False | Some l \<Rightarrow> l \<in> set bad_classes)"

text \<open>An augmented and encoded test frame of one row, as \<^verbatim>\<open>save_results\<close> receives it.\<close>

definition tiny_test_frame :: enc_dataframe where
  "tiny_test_frame =
     \<lparr>df_columns = [''text''], df_rows = [[''text'' \<mapsto> ''e1'']],
      augmented_cases = [''e1 [SEP] like e1''], similar_cases = [[''like e1'']],
      similar_cases_labels = [[''ad hominem'']], label_ids = [1]\<rparr>"

text \<open>
  A toy classifier to run the forward pass and \<^verbatim>\<open>compute_loss\<close> on. Tensors and scalars
  are integers and the state of the random number generator is a counter: dropout adds the
  counter to its input and advances it, the encoder gives back its input ids, attention
  adds query and key, the linear layers add one and double, and the two loss functions are
  two different arithmetic functions.
\<close>

definition toy_nn :: "(int, int) torch_nn" where
  "toy_nn =
     \<lparr>BCEWithLogitsLoss = (\<lambda>x y. Inr (x - y)), CrossEntropyLoss = (\<lambda>x y. Inr (x * y)),
      gelu = (\<lambda>x. x), first_position = (\<lambda>x. Inr x)\<rparr>"

definition toy_model :: "(int, nat) ElectraForSequenceClassification" where
  "toy_model =
     \<lparr>electra = (\<lambda>args g. case ea_input_ids args of
                   None \<Rightarrow> (Inl (ValueError ''You have to specify input_ids''), g)
                 | Some x \<Rightarrow> (Inr \<lparr>last_hidden_state = x, eo_hidden_states = None,
                                  eo_attentions = None\<rparr>, g)),
      attention = (\<lambda>q k v g. (Inr (q + k, 0), g)),
      classifier =
        \<lparr>dense = (\<lambda>x. Inr (x + 1)), dropout = (\<lambda>x g. (x + int g, Suc g)),
         out_proj = (\<lambda>x. Inr (2 * x))\<rparr>,
      problem_type = None,
      use_return_dict = True\<rparr>"

definition toy_batch :: "int batch" where
  "toy_batch =
     \<lparr>b_input_ids = 1, b_attention_mask = 1, b_input_ids_cbr = 3, b_attention_mask_cbr = 1,
      b_labels = Some 5\<rparr>"

section \<open>Properties of create_augmented_case\<close>

lemma append_similar_cases_concat:
  "append_similar_cases sep acc cs = acc @ concat (map (\<lambda>c. '' '' @ sep @ '' '' @ c) cs)"
  by (induction cs arbitrary: acc) simp_all

lemma append_similar_cases_with_feature_concat:
  "r feat = Some f \<Longrightarrow>
   append_similar_cases_with_feature r feat sep acc cs =
     Inr (acc @ concat (map (\<lambda>c. '' '' @ sep @ '' '' @ f @ '' '' @ sep @ '' '' @ c) cs))"
  by (induction cs arbitrary: acc) (simp_all add: row_get_def)

lemma create_augmented_case_text:
  assumes "feature cfg \<in> set [''text'', ''explanations'', ''goals'']" and "r ''text'' = Some t"
  shows "create_augmented_case r cfg sims =
           Inr (t @ concat (map (\<lambda>c. '' '' @ sep_token cfg @ '' '' @ c) sims))"
  using assms by (simp add: create_augmented_case_def row_get_def append_similar_cases_concat)

lemma create_augmented_case_structure:
  assumes "feature cfg \<in> set [''structure'', ''counter'']" and "r ''text'' = Some t"
    and "r (feature cfg) = Some f"
  shows "create_augmented_case r cfg sims =
           Inr (t @ concat (map (\<lambda>c. '' '' @ sep_token cfg @ '' '' @ f @ '' ''
                                        @ sep_token cfg @ '' '' @ c) sims))"
proof -
  from assms(1) have "feature cfg \<notin> set [''text'', ''explanations'', ''goals'']" by auto
  with assms(1,2) show ?thesis
    by (simp add: create_augmented_case_def row_get_def
        append_similar_cases_with_feature_concat [of r "feature cfg" f, OF assms(3)])
qed

lemma create_augmented_case_Nil:
  assumes "feature cfg \<in> set recognized_features" and "r ''text'' = Some t"
  shows "create_augmented_case r cfg [] = Inr t"
  using assms by (auto simp: create_augmented_case_def row_get_def recognized_features_def)

lemma create_augmented_case_total:
  assumes "feature cfg \<in> set recognized_features" and "r ''text'' = Some t"
    and "feature cfg \<in> {''structure'', ''counter''} \<and> sims \<noteq> [] \<longrightarrow> r (feature cfg) \<noteq> None"
  shows "\<exists>s. create_augmented_case r cfg sims = Inr s \<and> prefix t s"
proof (cases "feature cfg \<in> set [''text'', ''explanations'', ''goals'']")
  case True
  then show ?thesis using assms(2) by (simp add: create_augmented_case_text)
next
  case False
  with assms(1) have sc: "feature cfg \<in> set [''structure'', ''counter'']"
    by (auto simp: recognized_features_def)
  show ?thesis
  proof (cases sims)
    case Nil
    with assms(1,2) show ?thesis by (simp add: create_augmented_case_Nil)
  next
    case (Cons c cs)
    with sc assms(3) obtain f where f: "r (feature cfg) = Some f" by auto
    show ?thesis using create_augmented_case_structure [of cfg r t f sims] sc assms(2) f by simp
  qed
qed

lemma append_similar_cases_with_feature_prefix:
  "append_similar_cases_with_feature r feat sep acc cs = Inr s \<Longrightarrow> prefix acc s"
proof (induction cs arbitrary: acc)
  case Nil
  then show ?case by simp
next
  case (Cons c cs)
  then obtain f where "row_get r feat = Inr f"
    and "append_similar_cases_with_feature r feat sep
           (acc @ ('' '' @ sep @ '' '' @ f @ '' '' @ sep @ '' '' @ c)) cs = Inr s"
    by (auto split: sum.splits)
  with Cons.IH show ?case by (blast dest: append_prefixD)
qed

lemma create_augmented_case_returns_prefix:
  assumes "r ''text'' = Some t" and "create_augmented_case r cfg sims = Inr s"
  shows "prefix t s"
  using assms
  by (auto simp: create_augmented_case_def row_get_def append_similar_cases_concat
      split: if_splits dest: append_similar_cases_with_feature_prefix)

text \<open>
  Claim C1. For a row with a \<^verbatim>\<open>text\<close> column, any of the five feature modes and any list
  of similar cases, empty or not, every string that \<^verbatim>\<open>create_augmented_case\<close> returns has
  the row's original text as a prefix. It does return a string; in the modes
  \<^verbatim>\<open>structure\<close> and \<^verbatim>\<open>counter\<close> the row's feature column is read once for each similar
  case, so there the row has to have that column when the list is not empty.
\<close>

theorem create_augmented_case_prefix:
  assumes "feature cfg \<in> set recognized_features"
    and "r ''text'' = Some original"
  shows "(\<forall>s. create_augmented_case r cfg sims = Inr s \<longrightarrow> prefix original s)
       \<and> ((feature cfg \<in> {''structure'', ''counter''} \<and> sims \<noteq> [] \<longrightarrow> r (feature cfg) \<noteq> None)
            \<longrightarrow> (\<exists>s. create_augmented_case r cfg sims = Inr s \<and> prefix original s))"
  using create_augmented_case_returns_prefix [of r original cfg sims]
    create_augmented_case_total [of cfg r original sims] assms
  by blast

theorem create_augmented_case_prefix_witness:
  "feature (default_config\<lparr>feature := ''counter''\<rparr>) \<in> set recognized_features
   \<and> [''text'' \<mapsto> ''orig'', ''counter'' \<mapsto> ''F''] ''text'' = Some ''orig''
   \<and> [''text'' \<mapsto> ''orig'', ''counter'' \<mapsto> ''F'']
        (feature (default_config\<lparr>feature := ''counter''\<rparr>)) \<noteq> None
   \<and> (\<exists>s. create_augmented_case [''text'' \<mapsto> ''orig'', ''counter'' \<mapsto> ''F'']
              (default_config\<lparr>feature := ''counter''\<rparr>) [''A'', ''B''] = Inr s
          \<and> prefix ''orig'' s)"
proof -
  let ?cfg = "default_config\<lparr>feature := ''counter''\<rparr>"
  let ?r = "[''text'' \<mapsto> ''orig'', ''counter'' \<mapsto> ''F'']"
  have h1: "feature ?cfg \<in> set recognized_features"
    by (simp add: recognized_features_def)
  have h2: "?r ''text'' = Some ''orig''" by simp
  have h3: "?r (feature ?cfg) \<noteq> None" by simp
  from create_augmented_case_prefix [of ?cfg ?r "''orig''" "[''A'', ''B'']"] h1 h2 h3
  show ?thesis by blast
qed

text \<open>
  Claim C2. For a row with a \<^verbatim>\<open>text\<close> column and any of the five feature modes, an empty
  list of similar cases gives back exactly the row's original text: nothing is appended.
\<close>

theorem create_augmented_case_no_similar_cases:
  assumes "feature cfg \<in> set recognized_features" and "r ''text'' = Some original"
  shows "create_augmented_case r cfg [] = Inr original"
  using assms by (rule create_augmented_case_Nil)

theorem create_augmented_case_no_similar_cases_witness:
  "feature (default_config\<lparr>feature := ''structure''\<rparr>) \<in> set recognized_features
   \<and> [''text'' \<mapsto> ''All swans are white.''] ''text'' = Some ''All swans are white.''
   \<and> create_augmented_case [''text'' \<mapsto> ''All swans are white.'']
        (default_config\<lparr>feature := ''structure''\<rparr>) [] = Inr ''All swans are white.''"
proof -
  let ?cfg = "default_config\<lparr>feature := ''structure''\<rparr>"
  let ?r = "[''text'' \<mapsto> ''All swans are white.'']"
  have h1: "feature ?cfg \<in> set recognized_features"
    by (simp add: recognized_features_def)
  have h2: "?r ''text'' = Some ''All swans are white.''" by simp
  from create_augmented_case_no_similar_cases [of ?cfg ?r "''All swans are white.''"] h1 h2
  show ?thesis by blast
qed

text \<open>
  Claim C3. In the modes \<^verbatim>\<open>text\<close>, \<^verbatim>\<open>explanations\<close> and \<^verbatim>\<open>goals\<close> the result is the
  original text followed by, for each similar case in order, a space, the separator token,
  a space and the case's text. With the separator \<^verbatim>\<open>[SEP]\<close> and the cases \<open>A\<close>, \<open>B\<close> it is
  \<^verbatim>\<open>{original} [SEP] A [SEP] B\<close>.
\<close>

theorem create_augmented_case_text_modes:
  assumes "feature cfg \<in> {''text'', ''explanations'', ''goals''}"
    and "r ''text'' = Some original"
  shows "create_augmented_case r cfg sims =
           Inr (original @ concat (map (\<lambda>c. '' '' @ sep_token cfg @ '' '' @ c) sims))
         \<and> (sep_token cfg = ''[SEP]'' \<longrightarrow>
              create_augmented_case r cfg [a, b] =
                Inr (original @ '' [SEP] '' @ a @ '' [SEP] '' @ b))"
proof -
  from assms(1) have m: "feature cfg \<in> set [''text'', ''explanations'', ''goals'']" by simp
  show ?thesis using create_augmented_case_text [of cfg r original] m assms(2) by simp
qed

theorem create_augmented_case_text_modes_witness:
  "feature default_config \<in> {''text'', ''explanations'', ''goals''}
   \<and> [''text'' \<mapsto> ''orig''] ''text'' = Some ''orig''
   \<and> sep_token default_config = ''[SEP]''
   \<and> create_augmented_case [''text'' \<mapsto> ''orig''] default_config [''A'', ''B'']
       = Inr ''orig [SEP] A [SEP] B''"
proof -
  let ?r = "[''text'' \<mapsto> ''orig'']"
  have h1: "feature default_config \<in> {''text'', ''explanations'', ''goals''}"
    by (simp add: default_config_def)
  have h2: "?r ''text'' = Some ''orig''" by simp
  have h3: "sep_token default_config = ''[SEP]''" by (simp add: default_config_def)
  from create_augmented_case_text_modes [of default_config ?r "''orig''" "[]" "''A''" "''B''"]
    h1 h2 h3
  have "create_augmented_case ?r default_config [''A'', ''B'']
          = Inr (''orig'' @ '' [SEP] '' @ ''A'' @ '' [SEP] '' @ ''B'')" by blast
  with h1 h2 h3 show ?thesis by simp
qed

text \<open>
  Claim C4. In the modes \<^verbatim>\<open>structure\<close> and \<^verbatim>\<open>counter\<close>, for a row whose feature column
  holds \<open>F\<close>, the result is the original text followed by, for each similar case in order,
  the separator, \<open>F\<close>, the separator and the case's text, each preceded by a space. With
  the separator \<^verbatim>\<open>[SEP]\<close> and the cases \<open>A\<close>, \<open>B\<close> it is
  \<^verbatim>\<open>{original} [SEP] F [SEP] A [SEP] F [SEP] B\<close>.
\<close>

theorem create_augmented_case_structure_modes:
  assumes "feature cfg \<in> {''structure'', ''counter''}"
    and "r ''text'' = Some original"
    and "r (feature cfg) = Some f"
  shows "create_augmented_case r cfg sims =
           Inr (original @ concat (map (\<lambda>c. '' '' @ sep_token cfg @ '' '' @ f @ '' ''
                                               @ sep_token cfg @ '' '' @ c) sims))
         \<and> (sep_token cfg = ''[SEP]'' \<longrightarrow>
              create_augmented_case r cfg [a, b] =
                Inr (original @ '' [SEP] '' @ f @ '' [SEP] '' @ a
                       @ '' [SEP] '' @ f @ '' [SEP] '' @ b))"
proof -
  from assms(1) have m: "feature cfg \<in> set [''structure'', ''counter'']" by simp
  show ?thesis using create_augmented_case_structure [of cfg r original f] m assms(2,3) by simp
qed

theorem create_augmented_case_structure_modes_witness:
  "feature (default_config\<lparr>feature := ''structure''\<rparr>) \<in> {''structure'', ''counter''}
   \<and> [''text'' \<mapsto> ''orig'', ''structure'' \<mapsto> ''F''] ''text'' = Some ''orig''
   \<and> [''text'' \<mapsto> ''orig'', ''structure'' \<mapsto> ''F'']
        (feature (default_config\<lparr>feature := ''structure''\<rparr>)) = Some ''F''
   \<and> sep_token (default_config\<lparr>feature := ''structure''\<rparr>) = ''[SEP]''
   \<and> create_augmented_case [''text'' \<mapsto> ''orig'', ''structure'' \<mapsto> ''F'']
        (default_config\<lparr>feature := ''structure''\<rparr>) [''A'', ''B'']
       = Inr ''orig [SEP] F [SEP] A [SEP] F [SEP] B''"
proof -
  let ?cfg = "default_config\<lparr>feature := ''structure''\<rparr>"
  let ?r = "[''text'' \<mapsto> ''orig'', ''structure'' \<mapsto> ''F'']"
  have h1: "feature ?cfg \<in> {''structure'', ''counter''}" by simp
  have h2: "?r ''text'' = Some ''orig''" by simp
  have h3: "?r (feature ?cfg) = Some ''F''" by simp
  have h4: "sep_token ?cfg = ''[SEP]''" by (simp add: default_config_def)
  from create_augmented_case_structure_modes
    [of ?cfg ?r "''orig''" "''F''" "[]" "''A''" "''B''"] h1 h2 h3 h4
  have "create_augmented_case ?r ?cfg [''A'', ''B'']
          = Inr (''orig'' @ '' [SEP] '' @ ''F'' @ '' [SEP] '' @ ''A''
                   @ '' [SEP] '' @ ''F'' @ '' [SEP] '' @ ''B'')" by blast
  with h1 h2 h3 h4 show ?thesis by simp
qed

text \<open>
  Claim C10. When the feature mode is none of the five recognized ones, no branch assigns
  the result variable and \<^verbatim>\<open>create_augmented_case\<close> raises \<^verbatim>\<open>UnboundLocalError\<close>, for
  every row and every list of similar cases; so whenever it returns a string, the mode is
  one of the five.
\<close>

theorem create_augmented_case_unrecognized_feature:
  "(feature cfg \<notin> set recognized_features \<longrightarrow>
      create_augmented_case r cfg sims = Inl (UnboundLocalError ''augmented_case''))
   \<and> ((\<exists>s. create_augmented_case r cfg sims = Inr s) \<longrightarrow>
        feature cfg \<in> set recognized_features)"
  by (auto simp: create_augmented_case_def recognized_features_def)

theorem create_augmented_case_unrecognized_feature_witness:
  "feature (default_config\<lparr>feature := ''premise''\<rparr>) \<notin> set recognized_features
   \<and> create_augmented_case [''text'' \<mapsto> ''orig''] (default_config\<lparr>feature := ''premise''\<rparr>)
        [''A''] = Inl (UnboundLocalError ''augmented_case'')"
proof -
  let ?cfg = "default_config\<lparr>feature := ''premise''\<rparr>"
  have h: "feature ?cfg \<notin> set recognized_features"
    by (simp add: recognized_features_def)
  from create_augmented_case_unrecognized_feature [of ?cfg "[''text'' \<mapsto> ''orig'']" "[''A'']"] h
  show ?thesis by blast
qed

section \<open>Properties of augment_with_similar_cases\<close>

lemma retrieve_for_row_collects:
  assumes "\<forall>rt\<in>set rts. \<forall>e. retrieve_similar_cases rt r cfg = Inl e \<longrightarrow> is_Exception e"
  shows "snd (retrieve_for_row r cfg rts cs ls out) =
           Inr (cs @ row_similar_cases rts cfg r, ls @ row_similar_cases_labels rts cfg r)"
  using assms
proof (induction rts arbitrary: cs ls out)
  case Nil
  then show ?case by (simp add: row_similar_cases_def row_similar_cases_labels_def)
next
  case (Cons rt rts)
  then show ?case
    by (cases "retrieve_similar_cases rt r cfg")
       (simp_all add: row_similar_cases_def row_similar_cases_labels_def retrieved_or_zero_def)
qed

lemma row_similar_cases_no_feature:
  "r (feature cfg) = None \<Longrightarrow> row_similar_cases rts cfg r = []"
  by (simp add: row_similar_cases_def retrieved_or_zero_def retrieve_similar_cases_def row_get_def)

lemma create_augmented_case_row_similar_cases:
  assumes "feature cfg \<in> set recognized_features" and "r ''text'' \<noteq> None"
  shows "\<exists>a. create_augmented_case r cfg (row_similar_cases rts cfg r) = Inr a"
proof -
  from assms(2) obtain t where t: "r ''text'' = Some t" by auto
  have "feature cfg \<in> {''structure'', ''counter''} \<and> row_similar_cases rts cfg r \<noteq> []
          \<longrightarrow> r (feature cfg) \<noteq> None"
    using row_similar_cases_no_feature [of r cfg rts] by blast
  from create_augmented_case_total [of cfg r t "row_similar_cases rts cfg r"] assms(1) t this
  show ?thesis by blast
qed

lemma augment_rows_collects:
  assumes "feature cfg \<in> set recognized_features"
    and "\<forall>r\<in>set rows. r ''text'' \<noteq> None"
    and "\<forall>r\<in>set rows. \<forall>rt\<in>set rts. \<forall>e.
           retrieve_similar_cases rt r cfg = Inl e \<longrightarrow> is_Exception e"
  shows "\<exists>aug. snd (augment_rows rows rts cfg A S L out) =
             Inr (A @ aug, S @ map (row_similar_cases rts cfg) rows,
                  L @ map (row_similar_cases_labels rts cfg) rows)
           \<and> list_all2 (\<lambda>r a. create_augmented_case r cfg (row_similar_cases rts cfg r) = Inr a)
               rows aug"
  using assms(2,3)
proof (induction rows arbitrary: A S L out)
  case Nil
  then show ?case by simp
next
  case (Cons r rows)
  from Cons.prems have exc: "\<forall>rt\<in>set rts. \<forall>e. retrieve_similar_cases rt r cfg = Inl e \<longrightarrow> is_Exception e"
    by simp
  obtain out' where rr: "retrieve_for_row r cfg rts [] [] out =
      (out', Inr (row_similar_cases rts cfg r, row_similar_cases_labels rts cfg r))"
    using retrieve_for_row_collects [OF exc, of "[]" "[]" out]
    by (cases "retrieve_for_row r cfg rts [] [] out") simp
  from Cons.prems create_augmented_case_row_similar_cases [OF assms(1), of r rts]
  obtain a where a: "create_augmented_case r cfg (row_similar_cases rts cfg r) = Inr a"
    by auto
  from Cons.prems have "\<forall>r\<in>set rows. r ''text'' \<noteq> None"
    and "\<forall>r\<in>set rows. \<forall>rt\<in>set rts. \<forall>e. retrieve_similar_cases rt r cfg = Inl e \<longrightarrow> is_Exception e"
    by simp_all
  from Cons.IH [OF this, of "A @ [a]" "S @ [row_similar_cases rts cfg r]"
      "L @ [row_similar_cases_labels rts cfg r]" out']
  obtain aug where aug: "snd (augment_rows rows rts cfg (A @ [a]) (S @ [row_similar_cases rts cfg r])
        (L @ [row_similar_cases_labels rts cfg r]) out') =
      Inr ((A @ [a]) @ aug, (S @ [row_similar_cases rts cfg r]) @ map (row_similar_cases rts cfg) rows,
           (L @ [row_similar_cases_labels rts cfg r]) @ map (row_similar_cases_labels rts cfg) rows)"
    and all2: "list_all2 (\<lambda>r a. create_augmented_case r cfg (row_similar_cases rts cfg r) = Inr a) rows aug"
    by blast
  show ?case
  proof (intro exI conjI)
    show "snd (augment_rows (r # rows) rts cfg A S L out) =
        Inr (A @ (a # aug), S @ map (row_similar_cases rts cfg) (r # rows),
             L @ map (row_similar_cases_labels rts cfg) (r # rows))"
      using rr a aug by simp
    show "list_all2 (\<lambda>r a. create_augmented_case r cfg (row_similar_cases rts cfg r) = Inr a)
        (r # rows) (a # aug)"
      using a all2 by simp
  qed
qed

lemma augment_with_similar_cases_collects:
  assumes "feature cfg \<in> set recognized_features"
    and "\<forall>r\<in>set (df_rows df). r ''text'' \<noteq> None"
    and "\<forall>r\<in>set (df_rows df). \<forall>rt\<in>set rts. \<forall>e.
           retrieve_similar_cases rt r cfg = Inl e \<longrightarrow> is_Exception e"
  shows "\<exists>a. snd (augment_with_similar_cases df rts cfg out) = Inr a
           \<and> df_columns a = df_columns df \<and> df_rows a = df_rows df
           \<and> similar_cases a = map (row_similar_cases rts cfg) (df_rows df)
           \<and> similar_cases_labels a = map (row_similar_cases_labels rts cfg) (df_rows df)
           \<and> list_all2 (\<lambda>r a. create_augmented_case r cfg (row_similar_cases rts cfg r) = Inr a)
               (df_rows df) (augmented_cases a)"
proof -
  from augment_rows_collects [OF assms, of "[]" "[]" "[]" out]
  obtain aug where aug: "snd (augment_rows (df_rows df) rts cfg [] [] [] out) =
      Inr (aug, map (row_similar_cases rts cfg) (df_rows df),
           map (row_similar_cases_labels rts cfg) (df_rows df))"
    and all2: "list_all2 (\<lambda>r a. create_augmented_case r cfg (row_similar_cases rts cfg r) = Inr a)
        (df_rows df) aug"
    by auto
  obtain out' where "augment_rows (df_rows df) rts cfg [] [] [] out =
      (out', Inr (aug, map (row_similar_cases rts cfg) (df_rows df),
           map (row_similar_cases_labels rts cfg) (df_rows df)))"
    using aug by (cases "augment_rows (df_rows df) rts cfg [] [] [] out") simp
  with all2 show ?thesis
    by (simp add: augment_with_similar_cases_def dataframe.defs)
qed

lemma row_similar_cases_cong:
  assumes "length rts' = length rts"
    and "\<forall>j<length rts. retrieve_similar_cases (rts ! j) r cfg = retrieve_similar_cases (rts' ! j) r cfg"
  shows "row_similar_cases rts cfg r = row_similar_cases rts' cfg r
       \<and> row_similar_cases_labels rts cfg r = row_similar_cases_labels rts' cfg r"
proof -
  have "map (\<lambda>rt. map similar_case (retrieved_or_zero rt r cfg)) rts
               = map (\<lambda>rt. map similar_case (retrieved_or_zero rt r cfg)) rts'"
    using assms by (intro nth_equalityI) (simp_all add: retrieved_or_zero_def)
  moreover have "map (\<lambda>rt. map similar_case_label (retrieved_or_zero rt r cfg)) rts
               = map (\<lambda>rt. map similar_case_label (retrieved_or_zero rt r cfg)) rts'"
    using assms by (intro nth_equalityI) (simp_all add: retrieved_or_zero_def)
  ultimately show ?thesis
    by (simp add: row_similar_cases_def row_similar_cases_labels_def)
qed

text \<open>
  Claim C5. Take a data set whose rows have a \<^verbatim>\<open>text\<close> column, a recognized feature mode, and
  two runs of \<^verbatim>\<open>augment_with_similar_cases\<close> whose retrievers behave alike on every row but
  the one with index \<open>k\<close>, where retrievers of the first run may raise. Errors that are
  \<^verbatim>\<open>Exception\<close>s are caught: both runs return a data frame with an entry for every row,
  the three new columns agree on every row other than \<open>k\<close>, and on row \<open>k\<close> a retriever that
  raised has contributed no case and no label (\<open>retrieved_or_zero\<close>).
\<close>

theorem augment_with_similar_cases_retrieval_failure:
  assumes "feature cfg \<in> set recognized_features"
    and "\<forall>r\<in>set (df_rows df). r ''text'' \<noteq> None"
    and "\<forall>r\<in>set (df_rows df). \<forall>rt\<in>set rts. \<forall>e.
           retrieve_similar_cases rt r cfg = Inl e \<longrightarrow> is_Exception e"
    and "\<forall>r\<in>set (df_rows df). \<forall>rt\<in>set rts'. \<forall>e.
           retrieve_similar_cases rt r cfg = Inl e \<longrightarrow> is_Exception e"
    and "k < length (df_rows df)"
    and "length rts' = length rts"
    and "\<forall>i<length (df_rows df). i \<noteq> k \<longrightarrow>
           (\<forall>j<length rts. retrieve_similar_cases (rts ! j) (df_rows df ! i) cfg
                             = retrieve_similar_cases (rts' ! j) (df_rows df ! i) cfg)"
  shows "\<exists>a a'. snd (augment_with_similar_cases df rts cfg out) = Inr a
           \<and> snd (augment_with_similar_cases df rts' cfg out') = Inr a'
           \<and> length (augmented_cases a) = length (df_rows df)
           \<and> length (augmented_cases a') = length (df_rows df)
           \<and> length (similar_cases a) = length (df_rows df)
           \<and> length (similar_cases_labels a) = length (df_rows df)
           \<and> (\<forall>i<length (df_rows df). i \<noteq> k \<longrightarrow>
                  augmented_cases a ! i = augmented_cases a' ! i
                \<and> similar_cases a ! i = similar_cases a' ! i
                \<and> similar_cases_labels a ! i = similar_cases_labels a' ! i)
           \<and> similar_cases a ! k = row_similar_cases rts cfg (df_rows df ! k)
           \<and> similar_cases_labels a ! k = row_similar_cases_labels rts cfg (df_rows df ! k)
           \<and> create_augmented_case (df_rows df ! k) cfg (row_similar_cases rts cfg (df_rows df ! k))
               = Inr (augmented_cases a ! k)"
proof -
  let ?rows = "df_rows df"
  let ?P = "\<lambda>rs r a. create_augmented_case r cfg (row_similar_cases rs cfg r) = Inr a"
  from augment_with_similar_cases_collects [OF assms(1,2,3), of out]
  obtain a where a: "snd (augment_with_similar_cases df rts cfg out) = Inr a"
    and sa: "similar_cases a = map (row_similar_cases rts cfg) ?rows"
    and la: "similar_cases_labels a = map (row_similar_cases_labels rts cfg) ?rows"
    and ca: "list_all2 (?P rts) ?rows (augmented_cases a)"
    by blast
  from augment_with_similar_cases_collects [OF assms(1,2,4), of out']
  obtain a' where a': "snd (augment_with_similar_cases df rts' cfg out') = Inr a'"
    and sa': "similar_cases a' = map (row_similar_cases rts' cfg) ?rows"
    and la': "similar_cases_labels a' = map (row_similar_cases_labels rts' cfg) ?rows"
    and ca': "list_all2 (?P rts') ?rows (augmented_cases a')"
    by blast
  from ca have lena: "length (augmented_cases a) = length ?rows"
    by (simp add: list_all2_lengthD)
  from ca' have lena': "length (augmented_cases a') = length ?rows"
    by (simp add: list_all2_lengthD)
  have same: "augmented_cases a ! i = augmented_cases a' ! i
      \<and> similar_cases a ! i = similar_cases a' ! i
      \<and> similar_cases_labels a ! i = similar_cases_labels a' ! i"
    if i: "i < length ?rows" and ik: "i \<noteq> k" for i
  proof -
    from assms(7) i ik
    have "\<forall>j<length rts. retrieve_similar_cases (rts ! j) (?rows ! i) cfg
            = retrieve_similar_cases (rts' ! j) (?rows ! i) cfg" by blast
    from row_similar_cases_cong [OF assms(6) this]
    have eq: "row_similar_cases rts cfg (?rows ! i) = row_similar_cases rts' cfg (?rows ! i)"
      and eql: "row_similar_cases_labels rts cfg (?rows ! i)
                  = row_similar_cases_labels rts' cfg (?rows ! i)"
      by blast+
    have "?P rts (?rows ! i) (augmented_cases a ! i)"
      using list_all2_nthD [OF ca i] by simp
    moreover have "?P rts' (?rows ! i) (augmented_cases a' ! i)"
      using list_all2_nthD [OF ca' i] by simp
    ultimately have "augmented_cases a ! i = augmented_cases a' ! i"
      using eq by simp
    with eq eql sa sa' la la' i show ?thesis by simp
  qed
  have "?P rts (?rows ! k) (augmented_cases a ! k)"
    using list_all2_nthD [OF ca assms(5)] by simp
  with a a' lena lena' sa la assms(5) same show ?thesis
    by (intro exI [of _ a] exI [of _ a']) simp
qed

theorem augment_with_similar_cases_retrieval_failure_witness:
  "\<exists>a a'. snd (augment_with_similar_cases five_rows [failing_retriever] default_config []) = Inr a
     \<and> snd (augment_with_similar_cases five_rows [steady_retriever] default_config []) = Inr a'
     \<and> length (augmented_cases a) = 5
     \<and> augmented_cases a ! 0 = augmented_cases a' ! 0
     \<and> augmented_cases a ! 1 = augmented_cases a' ! 1
     \<and> augmented_cases a ! 3 = augmented_cases a' ! 3
     \<and> augmented_cases a ! 4 = augmented_cases a' ! 4
     \<and> retrieve_similar_cases failing_retriever (df_rows five_rows ! 2) default_config
          = Inl (RuntimeError ''mock failure'')
     \<and> similar_cases a ! 2 = []
     \<and> augmented_cases a ! 2 = ''third''
     \<and> augmented_cases a' ! 2 = ''third [SEP] like third''"
proof -
  let ?cfg = default_config
  have h1: "feature ?cfg \<in> set recognized_features"
    by (simp add: default_config_def recognized_features_def)
  have h2: "\<forall>r\<in>set (df_rows five_rows). r ''text'' \<noteq> None"
    by (simp add: five_rows_def)
  have h3: "\<forall>r\<in>set (df_rows five_rows). \<forall>rt\<in>set [failing_retriever]. \<forall>e.
              retrieve_similar_cases rt r ?cfg = Inl e \<longrightarrow> is_Exception e"
    by (simp add: five_rows_def retrieve_similar_cases_def row_get_def default_config_def
        failing_retriever_def steady_retriever_def)
  have h4: "\<forall>r\<in>set (df_rows five_rows). \<forall>rt\<in>set [steady_retriever]. \<forall>e.
              retrieve_similar_cases rt r ?cfg = Inl e \<longrightarrow> is_Exception e"
    by (simp add: five_rows_def retrieve_similar_cases_def row_get_def default_config_def
        steady_retriever_def)
  have h5: "2 < length (df_rows five_rows)" by (simp add: five_rows_def)
  have h6: "length [steady_retriever] = length [failing_retriever]" by simp
  have h7: "\<forall>i<length (df_rows five_rows). i \<noteq> 2 \<longrightarrow>
           (\<forall>j<length [failing_retriever].
              retrieve_similar_cases ([failing_retriever] ! j) (df_rows five_rows ! i) ?cfg
                = retrieve_similar_cases ([steady_retriever] ! j) (df_rows five_rows ! i) ?cfg)"
    by (auto simp: five_rows_def retrieve_similar_cases_def row_get_def default_config_def
        failing_retriever_def steady_retriever_def less_Suc_eq eval_nat_numeral)
  from augment_with_similar_cases_retrieval_failure [OF h1 h2 h3 h4 h5 h6 h7, of "[]" "[]"]
  obtain a a' where
    a: "snd (augment_with_similar_cases five_rows [failing_retriever] ?cfg []) = Inr a"
    and a': "snd (augment_with_similar_cases five_rows [steady_retriever] ?cfg []) = Inr a'"
    and len: "length (augmented_cases a) = length (df_rows five_rows)"
    and same: "\<forall>i<length (df_rows five_rows). i \<noteq> 2 \<longrightarrow>
                  augmented_cases a ! i = augmented_cases a' ! i
                \<and> similar_cases a ! i = similar_cases a' ! i
                \<and> similar_cases_labels a ! i = similar_cases_labels a' ! i"
    and sk: "similar_cases a ! 2 = row_similar_cases [failing_retriever] ?cfg (df_rows five_rows ! 2)"
    and ck: "create_augmented_case (df_rows five_rows ! 2) ?cfg
               (row_similar_cases [failing_retriever] ?cfg (df_rows five_rows ! 2))
             = Inr (augmented_cases a ! 2)"
    by blast
  have fail: "retrieve_similar_cases failing_retriever (df_rows five_rows ! 2) ?cfg
          = Inl (RuntimeError ''mock failure'')"
    by (simp add: five_rows_def retrieve_similar_cases_def row_get_def default_config_def
        failing_retriever_def)
  then have zero: "row_similar_cases [failing_retriever] ?cfg (df_rows five_rows ! 2) = []"
    by (simp add: row_similar_cases_def retrieved_or_zero_def)
  have third: "augmented_cases a ! 2 = ''third''"
    using ck unfolding zero
    by (simp add: five_rows_def create_augmented_case_def row_get_def default_config_def)
  have "snd (augment_with_similar_cases five_rows [steady_retriever] ?cfg [])
          = Inr a'" by (rule a')
  then have third': "augmented_cases a' ! 2 = ''third [SEP] like third''"
    by (auto simp: augment_with_similar_cases_def five_rows_def retrieve_similar_cases_def
        row_get_def default_config_def steady_retriever_def create_augmented_case_def
        dataframe.defs)
  from same have "augmented_cases a ! 0 = augmented_cases a' ! 0"
    and "augmented_cases a ! 1 = augmented_cases a' ! 1"
    and "augmented_cases a ! 3 = augmented_cases a' ! 3"
    and "augmented_cases a ! 4 = augmented_cases a' ! 4"
    by (simp_all add: five_rows_def)
  with a a' len fail sk zero third third' show ?thesis
    by (intro exI [of _ a] exI [of _ a']) (simp add: five_rows_def)
qed

section \<open>Properties of the label filter and the label encoder\<close>

lemma column_values_iff:
  "column_values rows c = Inr vs \<longleftrightarrow> map (\<lambda>r. r c) rows = map Some vs"
proof (induction rows arbitrary: vs)
  case Nil
  then show ?case by auto
next
  case (Cons r rows)
  show ?case
  proof (cases "r c")
    case None
    then show ?thesis by (cases vs) (simp_all add: row_get_def)
  next
    case (Some v)
    show ?thesis
    proof (cases "column_values rows c")
      case (Inl e)
      with Cons.IH have "\<And>ws. map (\<lambda>r. r c) rows \<noteq> map Some ws" by simp
      with Some Inl show ?thesis by (cases vs) (simp_all add: row_get_def)
    next
      case (Inr ws)
      with Cons.IH have "\<And>us. (ws = us) = (map (\<lambda>r. r c) rows = map Some us)" by simp
      with Some Inr show ?thesis by (cases vs) (auto simp: row_get_def)
    qed
  qed
qed

lemma column_values_total:
  "\<forall>r\<in>set rows. r c \<noteq> None \<Longrightarrow> \<exists>vs. column_values rows c = Inr vs"
proof (induction rows)
  case Nil
  then show ?case by simp
next
  case (Cons r rows)
  then obtain v vs where "r c = Some v" and "column_values rows c = Inr vs" by auto
  then show ?case by (simp add: row_get_def)
qed

lemma filter_zip_labels:
  "map (\<lambda>r. r ''label'') rows = map Some vs \<Longrightarrow>
   map fst (filter (\<lambda>(r, l). l \<notin> set bad_classes) (zip rows vs))
     = filter (\<lambda>r. \<not> label_in_bad_classes r) rows"
proof (induction rows arbitrary: vs)
  case Nil
  then show ?case by simp
next
  case (Cons r rows)
  then obtain v ws where vs: "vs = v # ws" and v: "r ''label'' = Some v"
    and ws: "map (\<lambda>r. r ''label'') rows = map Some ws"
    by (cases vs) auto
  from Cons.IH [OF ws] v show ?case
    by (simp add: vs label_in_bad_classes_def)
qed

lemma drop_bad_classes_filter:
  assumes "drop_bad_classes df = Inr df'"
  shows "df_columns df' = df_columns df
       \<and> df_rows df' = filter (\<lambda>r. \<not> label_in_bad_classes r) (df_rows df)
       \<and> ''label'' \<in> set (df_columns df')
       \<and> (\<forall>r\<in>set (df_rows df'). \<exists>l. r ''label'' = Some l \<and> l \<notin> set bad_classes)"
proof -
  from assms obtain labels where lab: "get_column df ''label'' = Inr labels"
    and df': "df' = df\<lparr>df_rows :=
        map fst (filter (\<lambda>(r, l). l \<notin> set bad_classes) (zip (df_rows df) labels))\<rparr>"
    by (auto simp: drop_bad_classes_def split: sum.splits)
  from lab have col: "''label'' \<in> set (df_columns df)"
    and cv: "column_values (df_rows df) ''label'' = Inr labels"
    by (auto simp: get_column_def split: if_splits)
  from cv have m: "map (\<lambda>r. r ''label'') (df_rows df) = map Some labels"
    by (simp add: column_values_iff)
  have rows: "df_rows df' = filter (\<lambda>r. \<not> label_in_bad_classes r) (df_rows df)"
    by (simp add: df' filter_zip_labels [OF m])
  have "\<exists>l. r ''label'' = Some l \<and> l \<notin> set bad_classes" if "r \<in> set (df_rows df')" for r
  proof -
    from that rows have r: "r \<in> set (df_rows df)" and nb: "\<not> label_in_bad_classes r" by auto
    from r obtain i where "i < length (df_rows df)" and "df_rows df ! i = r"
      by (auto simp: in_set_conv_nth)
    with m have "r ''label'' = Some (labels ! i)"
      by (metis length_map nth_map)
    with nb show ?thesis by (simp add: label_in_bad_classes_def)
  qed
  with rows col show ?thesis by (simp add: df')
qed

lemma get_column_labels:
  assumes "''label'' \<in> set (df_columns df)"
    and "\<forall>r\<in>set (df_rows df). \<exists>l. r ''label'' = Some l \<and> l \<notin> set bad_classes"
    and "get_column df ''label'' = Inr y"
  shows "set y \<inter> set bad_classes = {}"
proof -
  from assms(1,3) have "column_values (df_rows df) ''label'' = Inr y"
    by (simp add: get_column_def)
  then have m: "map (\<lambda>r. r ''label'') (df_rows df) = map Some y"
    by (simp add: column_values_iff)
  have "l \<notin> set bad_classes" if "l \<in> set y" for l
  proof -
    from that obtain i where i: "i < length y" and l: "y ! i = l"
      by (auto simp: in_set_conv_nth)
    from m have len: "length (df_rows df) = length y" by (metis length_map)
    from m i len have "(df_rows df ! i) ''label'' = Some l"
      by (metis l nth_map)
    moreover from i len have "df_rows df ! i \<in> set (df_rows df)" by simp
    ultimately show ?thesis using assms(2) by fastforce
  qed
  then show ?thesis by auto
qed

lemma index_of_Some:
  "index_of xs y = Some i \<Longrightarrow> i < length xs \<and> xs ! i = y"
  by (induction xs arbitrary: i) (auto split: if_splits)

lemma index_of_mem:
  "y \<in> set xs \<Longrightarrow> \<exists>i. index_of xs y = Some i"
  by (induction xs) auto

lemma transform_inverse_transform:
  "set ys \<subseteq> set (le_classes le) \<Longrightarrow>
   \<exists>ids. transform le ys = Inr ids \<and> inverse_transform le ids = Inr ys"
proof (induction ys)
  case Nil
  then show ?case by simp
next
  case (Cons y ys)
  then obtain ids where ids: "transform le ys = Inr ids" "inverse_transform le ids = Inr ys"
    by auto
  from Cons.prems obtain i where i: "index_of (le_classes le) y = Some i"
    using index_of_mem [of y "le_classes le"] by auto
  from index_of_Some [OF i] ids i show ?case by simp
qed

lemma set_classes_fit: "set (le_classes (fit y)) = set y"
  by (simp add: fit_def)

lemma fit_round_trip:
  "set ys \<subseteq> set y \<Longrightarrow>
   \<exists>ids. transform (fit y) ys = Inr ids \<and> inverse_transform (fit y) ids = Inr ys"
  by (rule transform_inverse_transform) (simp add: set_classes_fit)

section \<open>Properties of do_train_process\<close>

lemma augment_with_similar_cases_frame:
  "augment_with_similar_cases df rts cfg out = (out', Inr a) \<Longrightarrow>
   df_columns a = df_columns df \<and> df_rows a = df_rows df"
  by (auto simp: augment_with_similar_cases_def dataframe.defs split: prod.splits sum.splits)

lemma augment_splits_frames:
  assumes "augment_splits tr dv te rts cfg out = (out', Inr (atr, adv, ate))"
  shows "df_columns atr = df_columns tr \<and> df_rows atr = df_rows tr
       \<and> df_columns adv = df_columns dv \<and> df_rows adv = df_rows dv
       \<and> df_columns ate = df_columns te \<and> df_rows ate = df_rows te"
proof -
  from assms obtain o1 o2 where
    "augment_with_similar_cases tr rts cfg out = (o1, Inr atr)"
    "augment_with_similar_cases dv rts cfg o1 = (o2, Inr adv)"
    "augment_with_similar_cases te rts cfg o2 = (out', Inr ate)"
    by (auto simp: augment_splits_def split: prod.splits sum.splits)
  then show ?thesis
    by (auto dest: augment_with_similar_cases_frame)
qed

lemma read_splits_Inr:
  assumes "read_splits env cfg = Inr (tr, dv, te)"
  shows "\<exists>raw_tr raw_dv raw_te.
           read_csv env (path_join (data_dir cfg) ''train.csv'') = Inr raw_tr
         \<and> read_csv env (path_join (data_dir cfg) ''dev.csv'') = Inr raw_dv
         \<and> read_csv env (path_join (data_dir cfg) ''test.csv'') = Inr raw_te
         \<and> drop_bad_classes raw_tr = Inr tr
         \<and> drop_bad_classes raw_dv = Inr dv
         \<and> drop_bad_classes raw_te = Inr te"
  using assms by (auto simp: read_splits_def split: sum.splits)

lemma do_train_process_fitted:
  assumes "label_encoder (do_train_process env cfg fs) = Some le"
  shows "\<exists>tr dv te out rts out' atr adv ate y.
           read_splits env cfg = Inr (tr, dv, te)
         \<and> splits (do_train_process env cfg fs) = Some (tr, dv, te)
         \<and> build_retrievers env cfg (retrievers cfg) [] [] = (out, Inr rts)
         \<and> augment_splits tr dv te rts cfg out = (out', Inr (atr, adv, ate))
         \<and> get_column atr ''label'' = Inr y
         \<and> le = fit y"
  using assms
  by (auto simp: do_train_process_def Let_def split: sum.splits prod.splits)

text \<open>
  Claim C6. Whenever a run of \<^verbatim>\<open>do_train_process\<close> fits its label encoder, the three
  frames read from the CSV files have been filtered before: each split consists of exactly
  the rows of its file whose label is not one of the \<^verbatim>\<open>bad_classes\<close>, in their order. The
  encoder is fitted on the label column \<open>y\<close> of the filtered training split, no entry of
  which is a bad class, and encoding then decoding gives back every label of \<open>y\<close>, one at a
  time and as a whole column.
\<close>

theorem do_train_process_label_round_trip:
  assumes "label_encoder (do_train_process env cfg fs) = Some le"
  shows "\<exists>raw_train raw_dev raw_test train_df dev_df test_df y.
           read_csv env (path_join (data_dir cfg) ''train.csv'') = Inr raw_train
         \<and> read_csv env (path_join (data_dir cfg) ''dev.csv'') = Inr raw_dev
         \<and> read_csv env (path_join (data_dir cfg) ''test.csv'') = Inr raw_test
         \<and> splits (do_train_process env cfg fs) = Some (train_df, dev_df, test_df)
         \<and> df_rows train_df = filter (\<lambda>r. \<not> label_in_bad_classes r) (df_rows raw_train)
         \<and> df_rows dev_df = filter (\<lambda>r. \<not> label_in_bad_classes r) (df_rows raw_dev)
         \<and> df_rows test_df = filter (\<lambda>r. \<not> label_in_bad_classes r) (df_rows raw_test)
         \<and> get_column train_df ''label'' = Inr y
         \<and> le = fit y
         \<and> set y \<inter> set bad_classes = {}
         \<and> (\<forall>l\<in>set y. \<exists>i. transform le [l] = Inr [i] \<and> inverse_transform le [i] = Inr [l])
         \<and> (\<exists>ids. transform le y = Inr ids \<and> inverse_transform le ids = Inr y)"
proof -
  from do_train_process_fitted [OF assms]
  obtain tr dv te out rts out' atr adv ate y where
    rs: "read_splits env cfg = Inr (tr, dv, te)"
    and sp: "splits (do_train_process env cfg fs) = Some (tr, dv, te)"
    and au: "augment_splits tr dv te rts cfg out = (out', Inr (atr, adv, ate))"
    and y: "get_column atr ''label'' = Inr y"
    and le: "le = fit y"
    by blast
  from read_splits_Inr [OF rs] obtain raw_tr raw_dv raw_te where
    raw: "read_csv env (path_join (data_dir cfg) ''train.csv'') = Inr raw_tr"
      "read_csv env (path_join (data_dir cfg) ''dev.csv'') = Inr raw_dv"
      "read_csv env (path_join (data_dir cfg) ''test.csv'') = Inr raw_te"
    and dr: "drop_bad_classes raw_tr = Inr tr" "drop_bad_classes raw_dv = Inr dv"
      "drop_bad_classes raw_te = Inr te"
    by blast
  note ftr = drop_bad_classes_filter [OF dr(1)]
  note fdv = drop_bad_classes_filter [OF dr(2)]
  note fte = drop_bad_classes_filter [OF dr(3)]
  from augment_splits_frames [OF au] y have ytr: "get_column tr ''label'' = Inr y"
    by (auto simp: get_column_def split: if_splits)
  from ftr have "''label'' \<in> set (df_columns tr)"
    and "\<forall>r\<in>set (df_rows tr). \<exists>l. r ''label'' = Some l \<and> l \<notin> set bad_classes"
    by blast+
  from get_column_labels [OF this ytr] have nobad: "set y \<inter> set bad_classes = {}" .
  have one: "\<exists>i. transform le [l] = Inr [i] \<and> inverse_transform le [i] = Inr [l]"
    if "l \<in> set y" for l
  proof -
    from that have "set [l] \<subseteq> set y" by simp
    from fit_round_trip [OF this] obtain ids where
      t: "transform (fit y) [l] = Inr ids" and i: "inverse_transform (fit y) ids = Inr [l]"
      by blast
    from t obtain i where "ids = [i]" by (auto split: option.splits)
    with t i le show ?thesis by auto
  qed
  from fit_round_trip [of y y] le
  have whole: "\<exists>ids. transform le y = Inr ids \<and> inverse_transform le ids = Inr y" by simp
  from raw sp ftr fdv fte ytr le nobad one whole show ?thesis by blast
qed

theorem do_train_process_label_round_trip_witness:
  "label_encoder (do_train_process tiny_env default_config Map.empty)
     = Some \<lparr>le_classes = [''ad hominem'', ''ad populum'']\<rparr>
   \<and> (\<exists>train_df dev_df test_df.
         splits (do_train_process tiny_env default_config Map.empty)
           = Some (train_df, dev_df, test_df)
       \<and> length (df_rows train_csv) = 4 \<and> length (df_rows train_df) = 3
       \<and> length (df_rows dev_csv) = 2 \<and> length (df_rows dev_df) = 1
       \<and> length (df_rows test_csv) = 2 \<and> length (df_rows test_df) = 1
       \<and> get_column train_df ''label'' = Inr [''ad populum'', ''ad hominem'', ''ad populum''])
   \<and> transform \<lparr>le_classes = [''ad hominem'', ''ad populum'']\<rparr>
        [''ad populum'', ''ad hominem'', ''ad populum''] = Inr [1, 0, 1]
   \<and> inverse_transform \<lparr>le_classes = [''ad hominem'', ''ad populum'']\<rparr> [1, 0, 1]
        = Inr [''ad populum'', ''ad hominem'', ''ad populum'']"
proof -
  let ?le = "\<lparr>le_classes = [''ad hominem'', ''ad populum'']\<rparr>"
  let ?run = "do_train_process tiny_env default_config Map.empty"
  have h: "label_encoder ?run = Some ?le" by code_simp
  from do_train_process_label_round_trip [OF h]
  obtain raw_train raw_dev raw_test train_df dev_df test_df y where
    r1: "read_csv tiny_env (path_join (data_dir default_config) ''train.csv'') = Inr raw_train"
    and r2: "read_csv tiny_env (path_join (data_dir default_config) ''dev.csv'') = Inr raw_dev"
    and r3: "read_csv tiny_env (path_join (data_dir default_config) ''test.csv'') = Inr raw_test"
    and sp: "splits ?run = Some (train_df, dev_df, test_df)"
    and f1: "df_rows train_df = filter (\<lambda>r. \<not> label_in_bad_classes r) (df_rows raw_train)"
    and f2: "df_rows dev_df = filter (\<lambda>r. \<not> label_in_bad_classes r) (df_rows raw_dev)"
    and f3: "df_rows test_df = filter (\<lambda>r. \<not> label_in_bad_classes r) (df_rows raw_test)"
    and y: "get_column train_df ''label'' = Inr y"
    and whole: "\<exists>ids. transform ?le y = Inr ids \<and> inverse_transform ?le ids = Inr y"
    by blast
  have "read_csv tiny_env (path_join (data_dir default_config) ''train.csv'') = Inr train_csv"
    and "read_csv tiny_env (path_join (data_dir default_config) ''dev.csv'') = Inr dev_csv"
    and "read_csv tiny_env (path_join (data_dir default_config) ''test.csv'') = Inr test_csv"
    by (simp_all add: tiny_env_def default_config_def path_join_def)
  with r1 r2 r3 have raw: "raw_train = train_csv" "raw_dev = dev_csv" "raw_test = test_csv"
    by simp_all
  have l1: "length (df_rows train_csv) = 4 \<and> length (df_rows train_df) = 3"
    unfolding f1 raw by (simp add: train_csv_def label_in_bad_classes_def bad_classes_def)
  have l2: "length (df_rows dev_csv) = 2 \<and> length (df_rows dev_df) = 1"
    unfolding f2 raw by (simp add: dev_csv_def label_in_bad_classes_def bad_classes_def)
  have l3: "length (df_rows test_csv) = 2 \<and> length (df_rows test_df) = 1"
    unfolding f3 raw by (simp add: test_csv_def label_in_bad_classes_def bad_classes_def)
  from sp have "splits ?run = Some (train_df, dev_df, test_df)" .
  moreover have "map_option (\<lambda>(tr, dv, te). get_column tr ''label'') (splits ?run)
      = Some (Inr [''ad populum'', ''ad hominem'', ''ad populum''])"
    by code_simp
  ultimately have y': "get_column train_df ''label''
      = Inr [''ad populum'', ''ad hominem'', ''ad populum'']"
    by simp
  with y have yv: "y = [''ad populum'', ''ad hominem'', ''ad populum'']" by simp
  have t: "transform ?le [''ad populum'', ''ad hominem'', ''ad populum''] = Inr [1, 0, 1]"
    by simp
  have i: "inverse_transform ?le [1, 0, 1] = Inr [''ad populum'', ''ad hominem'', ''ad populum'']"
    by simp
  from h sp l1 l2 l3 y' t i show ?thesis by blast
qed

lemma build_retrievers_unknown:
  assumes "\<exists>n\<in>set names. n \<noteq> ''simcse''"
  shows "build_retrievers env cfg names acc out = (out @ [Text ''retreiver not found''], Inl SystemExit)
       \<or> (\<exists>e. SimCSE_Retriever env cfg = Inl e \<and> hd names = ''simcse''
              \<and> build_retrievers env cfg names acc out = (out, Inl e))"
  using assms
proof (induction names arbitrary: acc)
  case Nil
  then show ?case by simp
next
  case (Cons n names)
  show ?case
  proof (cases "n = ''simcse''")
    case False
    then show ?thesis by simp
  next
    case True
    with Cons.prems have ex: "\<exists>n\<in>set names. n \<noteq> ''simcse''" by simp
    show ?thesis
    proof (cases "SimCSE_Retriever env cfg")
      case (Inl e)
      with True show ?thesis by simp
    next
      case (Inr rt)
      with Cons.IH [OF ex, of "acc @ [rt]"] True show ?thesis by auto
    qed
  qed
qed

text \<open>
  Claim C9. When the retriever list of the configuration has a name other than
  \<^verbatim>\<open>simcse\<close>, the run ends with an error while it reads the data or builds the retrievers:
  nothing has been augmented, no label encoder fitted, no labels encoded, nothing trained or
  predicted, and no file written. When the files can be read and filtered, and the
  retriever constructor, if the list starts with \<^verbatim>\<open>simcse\<close>, does not raise, the error is
  the \<^verbatim>\<open>SystemExit\<close> of \<^verbatim>\<open>exit()\<close> in the loop over the names, after the message has been
  printed.
\<close>

theorem do_train_process_unknown_retriever:
  assumes "\<exists>n\<in>set (retrievers cfg). n \<noteq> ''simcse''"
  shows "raised (do_train_process env cfg fs) \<noteq> None
       \<and> phase (do_train_process env cfg fs) \<in> {ReadData, BuildRetrievers}
       \<and> augmented (do_train_process env cfg fs) = None
       \<and> label_encoder (do_train_process env cfg fs) = None
       \<and> encoded (do_train_process env cfg fs) = None
       \<and> \<not> trained (do_train_process env cfg fs)
       \<and> predictions (do_train_process env cfg fs) = None
       \<and> files (do_train_process env cfg fs) = fs
       \<and> (\<not> isl (read_splits env cfg)
            \<and> (hd (retrievers cfg) = ''simcse'' \<longrightarrow> \<not> isl (SimCSE_Retriever env cfg))
          \<longrightarrow> raised (do_train_process env cfg fs) = Some SystemExit
            \<and> phase (do_train_process env cfg fs) = BuildRetrievers
            \<and> stdout (do_train_process env cfg fs) = [Text ''retreiver not found''])"
proof (cases "read_splits env cfg")
  case (Inl e)
  then show ?thesis by (simp add: do_train_process_def)
next
  case (Inr sp)
  obtain tr dv te where sp: "sp = (tr, dv, te)" by (cases sp) auto
  from build_retrievers_unknown [OF assms, of env cfg "[]" "[]"]
  consider "build_retrievers env cfg (retrievers cfg) [] []
              = ([Text ''retreiver not found''], Inl SystemExit)"
    | e where "SimCSE_Retriever env cfg = Inl e" "hd (retrievers cfg) = ''simcse''"
        "build_retrievers env cfg (retrievers cfg) [] [] = ([], Inl e)"
    by auto
  then show ?thesis
  proof cases
    case 1
    with Inr sp show ?thesis by (simp add: do_train_process_def)
  next
    case 2
    with Inr sp show ?thesis by (simp add: do_train_process_def)
  qed
qed

theorem do_train_process_unknown_retriever_witness:
  "raised (do_train_process tiny_env (default_config\<lparr>retrievers := [''simcse'', ''bm25'']\<rparr>)
        Map.empty) = Some SystemExit
   \<and> phase (do_train_process tiny_env (default_config\<lparr>retrievers := [''simcse'', ''bm25'']\<rparr>)
        Map.empty) = BuildRetrievers
   \<and> stdout (do_train_process tiny_env (default_config\<lparr>retrievers := [''simcse'', ''bm25'']\<rparr>)
        Map.empty) = [Text ''retreiver not found'']
   \<and> augmented (do_train_process tiny_env (default_config\<lparr>retrievers := [''simcse'', ''bm25'']\<rparr>)
        Map.empty) = None
   \<and> label_encoder (do_train_process tiny_env
        (default_config\<lparr>retrievers := [''simcse'', ''bm25'']\<rparr>) Map.empty) = None
   \<and> files (do_train_process tiny_env (default_config\<lparr>retrievers := [''simcse'', ''bm25'']\<rparr>)
        Map.empty) = Map.empty
   \<and> phase (do_train_process tiny_env default_config Map.empty) = Finished"
proof -
  let ?cfg = "default_config\<lparr>retrievers := [''simcse'', ''bm25'']\<rparr>"
  have h: "\<exists>n\<in>set (retrievers ?cfg). n \<noteq> ''simcse''" by simp
  have r: "\<not> isl (read_splits tiny_env ?cfg)" by code_simp
  have c: "hd (retrievers ?cfg) = ''simcse'' \<longrightarrow> \<not> isl (SimCSE_Retriever tiny_env ?cfg)"
    by (simp add: tiny_env_def)
  have f: "phase (do_train_process tiny_env default_config Map.empty) = Finished"
    by code_simp
  from do_train_process_unknown_retriever [OF h, of tiny_env Map.empty] r c f
  show ?thesis by blast
qed

section \<open>Properties of save_results\<close>

lemma length_path_join: "length b \<le> length (path_join a b)"
  by (simp add: path_join_def)

lemma file_name_not_fixed_path: "file_name cfg now \<noteq> ''res2.joblib''"
proof
  assume eq: "file_name cfg now = ''res2.joblib''"
  have "length (''outputs_dict__'' @ now @ ''.joblib'') \<le> length (file_name cfg now)"
    unfolding file_name_def by (rule length_path_join)
  with eq show False by simp
qed

text \<open>
  Claim C8. Whenever \<^verbatim>\<open>save_results\<close> returns, the files are the ones before the call with
  the bundle stored under \<^verbatim>\<open>res2.joblib\<close>: no other path changes. The file name computed
  from \<^verbatim>\<open>config.predictions_dir\<close> is never that path, so nothing is written under it. An
  error of the write itself is not modelled; in the model the call fails only when the test
  frame has no \<^verbatim>\<open>text\<close> column. The paths present after the call are the same whatever
  \<^verbatim>\<open>config.predictions_dir\<close> is.
\<close>

theorem save_results_fixed_path:
  "(\<forall>fs'. save_results cfg le preds test_df now fs = Inr fs' \<longrightarrow>
        (\<exists>b. fs' = fs(''res2.joblib'' \<mapsto> b) \<and> od_meta b = cfg \<and> od_predictions b = preds)
      \<and> (\<forall>p. p \<noteq> ''res2.joblib'' \<longrightarrow> fs' p = fs p)
      \<and> fs' (file_name cfg now) = fs (file_name cfg now))
   \<and> file_name cfg now \<noteq> ''res2.joblib''
   \<and> (isl (save_results cfg le preds test_df now fs) \<longleftrightarrow> isl (get_column test_df ''text''))
   \<and> (\<forall>d. map_sum id dom (save_results (cfg\<lparr>predictions_dir := d\<rparr>) le preds test_df now fs)
            = map_sum id dom (save_results cfg le preds test_df now fs))"
  using file_name_not_fixed_path [of cfg now]
  by (auto simp: save_results_def Let_def split: sum.splits)

theorem save_results_fixed_path_witness:
  "\<exists>b. save_results (default_config\<lparr>predictions_dir := ''out''\<rparr>)
          \<lparr>le_classes = [''ad hominem'', ''ad populum'']\<rparr> (Some ''predictions'')
          tiny_test_frame ''2024-01-01T00:00:00.000000'' Map.empty
        = Inr [''res2.joblib'' \<mapsto> b]
      \<and> od_meta b = default_config\<lparr>predictions_dir := ''out''\<rparr>
      \<and> od_text b = [''e1'']
      \<and> file_name (default_config\<lparr>predictions_dir := ''out''\<rparr>) ''2024-01-01T00:00:00.000000''
          = ''out/outputs_dict__2024-01-01T00:00:00.000000.joblib''
      \<and> [''res2.joblib'' \<mapsto> b] ''out/outputs_dict__2024-01-01T00:00:00.000000.joblib'' = None"
proof -
  let ?cfg = "default_config\<lparr>predictions_dir := ''out''\<rparr>"
  let ?le = "\<lparr>le_classes = [''ad hominem'', ''ad populum'']\<rparr>"
  let ?now = "''2024-01-01T00:00:00.000000''"
  let ?call = "save_results ?cfg ?le (Some ''predictions'') tiny_test_frame ?now Map.empty"
  have "\<not> isl (get_column tiny_test_frame ''text'')"
    by (simp add: tiny_test_frame_def get_column_def row_get_def)
  with save_results_fixed_path [of ?cfg ?le "Some ''predictions''" tiny_test_frame ?now Map.empty]
  have "\<not> isl ?call" by blast
  then obtain fs' where fs': "?call = Inr fs'" by (cases ?call) auto
  with save_results_fixed_path [of ?cfg ?le "Some ''predictions''" tiny_test_frame ?now Map.empty]
  obtain b where b: "fs' = [''res2.joblib'' \<mapsto> b]" "od_meta b = ?cfg"
    and other: "fs' (file_name ?cfg ?now) = Map.empty (file_name ?cfg ?now)"
    by blast
  have fn: "file_name ?cfg ?now = ''out/outputs_dict__2024-01-01T00:00:00.000000.joblib''"
    by (simp add: file_name_def path_join_def default_config_def)
  from fs' b have "od_text b = [''e1'']"
    by (auto simp: save_results_def tiny_test_frame_def get_column_def row_get_def Let_def
        dest: map_upd_eqD1)
  with fs' b other fn show ?thesis by (intro exI [of _ b]) simp
qed

section \<open>Properties of the losses\<close>

lemma bind_call_Inr:
  "bind_call m f = (Inr y, g') \<longleftrightarrow> (\<exists>x g1. m = (Inr x, g1) \<and> f x g1 = (Inr y, g'))"
proof (cases m)
  case (Pair r g1)
  then show ?thesis by (cases r) simp_all
qed

lemma forward_Inr:
  assumes "forward nn self a g = (Inr out, g')"
  shows "\<exists>dhs lgts ls. internal_loss nn self lgts (labels a) = Inr ls
           \<and> out = (if \<not> (case return_dict a of Some b \<Rightarrow> b | None \<Rightarrow> use_return_dict self)
                    then TupleOutput ls (lgts # tuple_tail dhs)
                    else DictOutput \<lparr>loss = ls, logits = lgts,
                           hidden_states = eo_hidden_states dhs,
                           attentions = eo_attentions dhs\<rparr>)"
proof -
  let ?rd = "case return_dict a of Some b \<Rightarrow> b | None \<Rightarrow> use_return_dict self"
  from assms obtain dhs lgts g4 where
    fin: "(case internal_loss nn self lgts (labels a) of
             Inl e \<Rightarrow> (Inl e, g4)
           | Inr ls \<Rightarrow>
               if \<not> ?rd then (Inr (TupleOutput ls (lgts # tuple_tail dhs)), g4)
               else (Inr (DictOutput \<lparr>loss = ls, logits = lgts,
                            hidden_states = eo_hidden_states dhs,
                            attentions = eo_attentions dhs\<rparr>), g4))
          = (Inr out, g')"
    unfolding forward_def Let_def bind_call_Inr by blast
  show ?thesis
  proof (cases "internal_loss nn self lgts (labels a)")
    case (Inl e)
    with fin show ?thesis by simp
  next
    case (Inr ls)
    with fin have "out = (if \<not> ?rd then TupleOutput ls (lgts # tuple_tail dhs)
                    else DictOutput \<lparr>loss = ls, logits = lgts,
                           hidden_states = eo_hidden_states dhs,
                           attentions = eo_attentions dhs\<rparr>)"
      by (simp split: if_splits)
    with Inr show ?thesis by blast
  qed
qed

lemma forward_DictOutput:
  assumes "forward nn self a g = (Inr (DictOutput d), g')"
  shows "internal_loss nn self (logits d) (labels a) = Inr (loss d)"
  using forward_Inr [OF assms] by (auto split: if_splits)

lemma forward_TupleOutput:
  assumes "forward nn self a g = (Inr (TupleOutput lo ts), g')"
  shows "\<exists>lg rest. internal_loss nn self lg (labels a) = Inr lo \<and> ts = lg # rest"
  using forward_Inr [OF assms] by (auto split: if_splits)

lemma internal_loss_labels:
  assumes "labels a = Some l" and "problem_type self = None"
    and "internal_loss nn self lg (labels a) = Inr lo"
  shows "\<exists>v. BCEWithLogitsLoss nn lg l = Inr v \<and> lo = Some v"
  using assms by (auto simp: internal_loss_def split: sum.splits)

lemma internal_loss_no_labels:
  "internal_loss nn self lg None = Inr lo \<Longrightarrow> lo = None"
  by (simp add: internal_loss_def)

lemma compute_loss_Inr:
  "compute_loss nn self inputs ro g = (Inr (ce, outs), g') \<longleftrightarrow>
     (\<exists>d lbls. forward nn self (model_call_args inputs) g = (Inr (DictOutput d), g')
        \<and> b_labels inputs = Some lbls
        \<and> CrossEntropyLoss nn (logits d) lbls = Inr ce
        \<and> outs = (if ro then Some (DictOutput d) else None))"
  (is "?L \<longleftrightarrow> ?R")
proof
  assume ?L
  then obtain outputs g1 where
    f: "forward nn self (model_call_args inputs) g = (Inr outputs, g1)"
    and r: "(case outputs of
               TupleOutput _ _ \<Rightarrow> (Inl (AttributeError ''get''), g1)
             | DictOutput d \<Rightarrow>
                 (case b_labels inputs of
                    None \<Rightarrow> (Inl (TypeError ''target''), g1)
                  | Some lbls \<Rightarrow>
                      (case CrossEntropyLoss nn (logits d) lbls of
                         Inl e \<Rightarrow> (Inl e, g1)
                       | Inr l \<Rightarrow> (Inr (l, if ro then Some outputs else None), g1))))
            = (Inr (ce, outs), g')"
    unfolding compute_loss_def bind_call_Inr by blast
  show ?R
  proof (cases outputs)
    case (TupleOutput lo ts)
    with r show ?thesis by simp
  next
    case (DictOutput d)
    show ?thesis
    proof (cases "b_labels inputs")
      case None
      with r DictOutput show ?thesis by simp
    next
      case (Some lbls)
      show ?thesis
      proof (cases "CrossEntropyLoss nn (logits d) lbls")
        case (Inl e)
        with r DictOutput Some show ?thesis by simp
      next
        case (Inr v)
        with r DictOutput Some have "v = ce" "outs = (if ro then Some (DictOutput d) else None)"
          "g1 = g'" by auto
        with f DictOutput Some Inr show ?thesis by blast
      qed
    qed
  qed
next
  assume ?R
  then show ?L by (auto simp: compute_loss_def)
qed

lemma toy_forward_with_labels:
  "forward toy_nn toy_model ((model_call_args toy_batch)\<lparr>labels := b_labels toy_batch\<rparr>) 0
     = (Inr (DictOutput \<lparr>loss = Some 7, logits = 12, hidden_states = None,
                          attentions = None\<rparr>), 2)"
  by (simp add: forward_def head_forward_def internal_loss_def model_call_args_def toy_nn_def
      toy_model_def toy_batch_def numeral_2_eq_2)

lemma toy_forward_without_labels:
  "forward toy_nn toy_model (model_call_args toy_batch) 0
     = (Inr (DictOutput \<lparr>loss = None, logits = 12, hidden_states = None,
                          attentions = None\<rparr>), 2)"
  by (simp add: forward_def head_forward_def internal_loss_def model_call_args_def toy_nn_def
      toy_model_def toy_batch_def numeral_2_eq_2)

text \<open>
  Claim C7, as stated, has the training wrapper override a loss that the forward pass has
  computed. On the toy classifier, the forward pass with the labels of the batch gives the
  binary cross-entropy value as its loss, but the outputs that \<^verbatim>\<open>compute_loss\<close> gets from
  its own call of the model carry no loss at all: the call passes no labels, so for a
  training batch there is no internally computed loss to override.
\<close>

theorem compute_loss_internal_loss_counterexample:
  "forward toy_nn toy_model ((model_call_args toy_batch)\<lparr>labels := b_labels toy_batch\<rparr>) 0
     = (Inr (DictOutput \<lparr>loss = Some 7, logits = 12, hidden_states = None,
                          attentions = None\<rparr>), 2)
   \<and> compute_loss toy_nn toy_model toy_batch True 0
     = (Inr (60, Some (DictOutput \<lparr>loss = None, logits = 12, hidden_states = None,
                                   attentions = None\<rparr>)), 2)"
  by (simp add: toy_forward_with_labels compute_loss_def toy_forward_without_labels)
     (simp add: toy_nn_def toy_batch_def)

text \<open>
  Claim C7, amended. In the forward pass, when labels are given and the problem type is
  unset, a single scalar binary cross-entropy with logits is computed over the logits: the
  loss of every output is that one scalar, the \<^verbatim>\<open>loss\<close> entry of the output object and the
  first entry of the tuple. For every batch on which \<^verbatim>\<open>compute_loss\<close> returns, the loss it
  returns is the categorical cross-entropy, computed outside the model, of the labels of
  the batch and the logits of its own call of the model; that call passes no labels, so
  its output carries no loss: no internally computed loss is overridden. \<^verbatim>\<open>compute_loss\<close>
  returns whenever its call of the model gives an output object, the batch has labels and
  the cross-entropy returns.
\<close>

theorem forward_loss_and_compute_loss:
  "(labels a = Some l \<and> problem_type self = None \<longrightarrow>
      (\<forall>d g g'. forward nn self a g = (Inr (DictOutput d), g') \<longrightarrow>
            (\<exists>v. BCEWithLogitsLoss nn (logits d) l = Inr v \<and> loss d = Some v))
    \<and> (\<forall>lo ts g g'. forward nn self a g = (Inr (TupleOutput lo ts), g') \<longrightarrow>
            (\<exists>v lg rest. BCEWithLogitsLoss nn lg l = Inr v \<and> lo = Some v \<and> ts = lg # rest)))
   \<and> (\<forall>ce outs g g'. compute_loss nn self inputs ro g = (Inr (ce, outs), g') \<longrightarrow>
         (\<exists>d lbls. forward nn self (model_call_args inputs) g = (Inr (DictOutput d), g')
            \<and> loss d = None
            \<and> b_labels inputs = Some lbls
            \<and> CrossEntropyLoss nn (logits d) lbls = Inr ce
            \<and> outs = (if ro then Some (DictOutput d) else None)))
   \<and> (\<forall>d lbls ce g g'. forward nn self (model_call_args inputs) g = (Inr (DictOutput d), g')
          \<and> b_labels inputs = Some lbls
          \<and> CrossEntropyLoss nn (logits d) lbls = Inr ce
        \<longrightarrow> compute_loss nn self inputs ro g
              = (Inr (ce, if ro then Some (DictOutput d) else None), g'))"
proof (intro conjI allI impI)
  fix d g g' assume h: "labels a = Some l \<and> problem_type self = None"
    and f: "forward nn self a g = (Inr (DictOutput d), g')"
  from internal_loss_labels [of a l self nn "logits d" "loss d"] h forward_DictOutput [OF f]
  show "\<exists>v. BCEWithLogitsLoss nn (logits d) l = Inr v \<and> loss d = Some v" by auto
next
  fix lo ts g g' assume h: "labels a = Some l \<and> problem_type self = None"
    and f: "forward nn self a g = (Inr (TupleOutput lo ts), g')"
  from forward_TupleOutput [OF f] obtain lg rest where
    il: "internal_loss nn self lg (labels a) = Inr lo" and ts: "ts = lg # rest" by blast
  from internal_loss_labels [of a l self nn lg lo] h il ts
  show "\<exists>v lg rest. BCEWithLogitsLoss nn lg l = Inr v \<and> lo = Some v \<and> ts = lg # rest" by auto
next
  fix ce outs g g' assume "compute_loss nn self inputs ro g = (Inr (ce, outs), g')"
  then obtain d lbls where
    d: "forward nn self (model_call_args inputs) g = (Inr (DictOutput d), g')"
    and rest: "b_labels inputs = Some lbls" "CrossEntropyLoss nn (logits d) lbls = Inr ce"
      "outs = (if ro then Some (DictOutput d) else None)"
    unfolding compute_loss_Inr by blast
  have "labels (model_call_args inputs) = None" by (simp add: model_call_args_def)
  with forward_DictOutput [OF d] have "loss d = None"
    by (simp add: internal_loss_def)
  with d rest
  show "\<exists>d lbls. forward nn self (model_call_args inputs) g = (Inr (DictOutput d), g')
            \<and> loss d = None
            \<and> b_labels inputs = Some lbls
            \<and> CrossEntropyLoss nn (logits d) lbls = Inr ce
            \<and> outs = (if ro then Some (DictOutput d) else None)"
    by blast
next
  fix d lbls ce g g'
  assume "forward nn self (model_call_args inputs) g = (Inr (DictOutput d), g')
          \<and> b_labels inputs = Some lbls
          \<and> CrossEntropyLoss nn (logits d) lbls = Inr ce"
  then show "compute_loss nn self inputs ro g
      = (Inr (ce, if ro then Some (DictOutput d) else None), g')"
    unfolding compute_loss_Inr by blast
qed

theorem forward_loss_and_compute_loss_witness:
  "labels ((model_call_args toy_batch)\<lparr>labels := b_labels toy_batch\<rparr>) = Some 5
   \<and> problem_type toy_model = None
   \<and> forward toy_nn toy_model ((model_call_args toy_batch)\<lparr>labels := b_labels toy_batch\<rparr>) 0
       = (Inr (DictOutput \<lparr>loss = Some 7, logits = 12, hidden_states = None,
                            attentions = None\<rparr>), 2)
   \<and> BCEWithLogitsLoss toy_nn 12 5 = Inr 7
   \<and> b_labels toy_batch = Some 5
   \<and> CrossEntropyLoss toy_nn 12 5 = Inr 60
   \<and> compute_loss toy_nn toy_model toy_batch False 0 = (Inr (60, None), 2)"
proof -
  let ?a = "(model_call_args toy_batch)\<lparr>labels := b_labels toy_batch\<rparr>"
  let ?dl = "\<lparr>loss = Some (7::int), logits = (12::int), hidden_states = None,
              attentions = None\<rparr>"
  let ?dn = "\<lparr>loss = None :: int option, logits = (12::int), hidden_states = None,
              attentions = None\<rparr>"
  have h1: "labels ?a = Some 5" by (simp add: toy_batch_def)
  have h2: "problem_type toy_model = None" by (simp add: toy_model_def)
  have h3: "b_labels toy_batch = Some 5" by (simp add: toy_batch_def)
  have h4: "CrossEntropyLoss toy_nn (logits ?dn) 5 = Inr 60" by (simp add: toy_nn_def)
  note inst = forward_loss_and_compute_loss [of ?a 5 toy_model toy_nn toy_batch False]
  from inst h1 h2 toy_forward_with_labels
  have "\<exists>v. BCEWithLogitsLoss toy_nn (logits ?dl) 5 = Inr v \<and> loss ?dl = Some v" by blast
  then have bce: "BCEWithLogitsLoss toy_nn 12 5 = Inr 7" by simp
  from inst toy_forward_without_labels h3 h4
  have "compute_loss toy_nn toy_model toy_batch False 0
          = (Inr (60, if False then Some (DictOutput ?dn) else None), 2)" by blast
  then have cl: "compute_loss toy_nn toy_model toy_batch False 0 = (Inr (60, None), 2)" by simp
  from h1 h2 h3 h4 bce cl toy_forward_with_labels show ?thesis by simp
qed

end
